theory Spec2Isabelle
  imports Complex_Main "HOL-Library.Multiset"
begin

section \<open>Rover energy model and energy-aware task scheduling\<close>

text \<open>
  A shallow embedding of the rover energy model (\<^verbatim>\<open>models/rover_config.py\<close>,
  \<^verbatim>\<open>models/energy_model.py\<close>), of the mission simulator
  (\<^verbatim>\<open>sim/simulate_mission.py\<close>) and of the benchmark harness
  (\<^verbatim>\<open>simple_validation.py\<close>).

  Python floats are idealised as the real numbers: every arithmetic operation is the exact
  one, so rounding, overflow to infinity and NaN are outside the model. Python exceptions
  are values of the type \<open>error\<close>; a function that can raise returns \<open>error + 'a\<close>
  with \<open>Inl\<close> for the exception. A division whose divisor can be zero is guarded by an
  explicit \<open>ZeroDivisionError\<close> branch. Where a claim turns on the rounding of the
  floats, the functions it is about are modelled a second time over rounded arithmetic
  (the section on binary64 arithmetic).
\<close>

subsection \<open>Exceptions\<close>

datatype error =
    ValueError string
  | ZeroDivisionError
  | KeyError
  | NonFinite


subsection \<open>Rover configuration (\<^verbatim>\<open>RoverConfig\<close>)\<close>

text \<open>
  The class-level constants of \<^verbatim>\<open>RoverConfig\<close> that the modelled code reads. The energy
  model and the simulator take the configuration object as a constructor argument, so the
  functions below take it as a parameter; \<open>RoverConfig\<close> is the class as it is written.
\<close>

record rover_config =
  GRAVITY_MARS :: real
  MASS :: real
  BATTERY_CAPACITY :: real
  ROLLING_RESISTANCE_COEFF :: real
  MOTOR_EFFICIENCY :: real
  DRIVETRAIN_EFFICIENCY :: real
  NOMINAL_VELOCITY :: real
  TASK_POWER :: "string \<rightharpoonup> real"
  ENERGY_RESERVE_RATIO :: real
  CRITICAL_ENERGY_THRESHOLD :: real

definition RoverConfig :: rover_config where
  "RoverConfig = \<lparr>
     GRAVITY_MARS = 3.71,
     MASS = 899.0,
     BATTERY_CAPACITY = 42.24,
     ROLLING_RESISTANCE_COEFF = 0.15,
     MOTOR_EFFICIENCY = 0.85,
     DRIVETRAIN_EFFICIENCY = 0.90,
     NOMINAL_VELOCITY = 0.042,
     TASK_POWER = map_of
       [(''navigation'', 50.0),
        (''sample_collection'', 80.0),
        (''drilling'', 120.0),
        (''imaging'', 30.0),
        (''spectrometry'', 45.0),
        (''communication'', 25.0),
        (''idle'', 10.0)],
     ENERGY_RESERVE_RATIO = 0.20,
     CRITICAL_ENERGY_THRESHOLD = 0.10 \<rparr>"

definition get_available_energy :: "rover_config \<Rightarrow> real \<Rightarrow> real" where
  "get_available_energy cfg current_battery_level =
     (let total_energy = BATTERY_CAPACITY cfg * current_battery_level;
          reserve_energy = BATTERY_CAPACITY cfg * ENERGY_RESERVE_RATIO cfg
      in max 0 (total_energy - reserve_energy))"

definition is_critical_energy :: "rover_config \<Rightarrow> real \<Rightarrow> bool" where
  "is_critical_energy cfg current_battery_level \<longleftrightarrow>
     current_battery_level \<le> CRITICAL_ENERGY_THRESHOLD cfg"

subsection \<open>Energy model (\<^verbatim>\<open>EnergyModel\<close>)\<close>

text \<open>\<^verbatim>\<open>math.radians\<close>: degrees to radians.\<close>

definition radians :: "real \<Rightarrow> real" where
  "radians deg = deg * pi / 180"

text \<open>A \<^verbatim>\<open>mass\<close> argument of \<^verbatim>\<open>None\<close> stands for the configured rover mass.\<close>

definition mass_or_default :: "rover_config \<Rightarrow> real option \<Rightarrow> real" where
  "mass_or_default cfg mass = (case mass of None \<Rightarrow> MASS cfg | Some m \<Rightarrow> m)"

definition calculate_slope_force :: "rover_config \<Rightarrow> real \<Rightarrow> real option \<Rightarrow> real" where
  "calculate_slope_force cfg slope_degrees mass =
     (let m = mass_or_default cfg mass;
          slope_radians = radians slope_degrees
      in m * GRAVITY_MARS cfg * sin slope_radians)"

definition calculate_rolling_resistance :: "rover_config \<Rightarrow> real option \<Rightarrow> real \<Rightarrow> real" where
  "calculate_rolling_resistance cfg mass slope_degrees =
     (let m = mass_or_default cfg mass;
          slope_radians = radians slope_degrees;
          normal_force = m * GRAVITY_MARS cfg * cos slope_radians
      in ROLLING_RESISTANCE_COEFF cfg * normal_force)"

definition calculate_roughness_penalty :: "real \<Rightarrow> real \<Rightarrow> real" where
  "calculate_roughness_penalty roughness velocity = roughness * velocity * 50.0"

definition calculate_power_consumption ::
  "rover_config \<Rightarrow> real \<Rightarrow> real \<Rightarrow> real \<Rightarrow> real option \<Rightarrow> error + real" where
  "calculate_power_consumption cfg slope_degrees velocity roughness mass =
     (let m = mass_or_default cfg mass;
          slope_force = calculate_slope_force cfg slope_degrees (Some m);
          rolling_resistance = calculate_rolling_resistance cfg (Some m) slope_degrees;
          total_force = \<bar>slope_force\<bar> + rolling_resistance;
          mechanical_power = total_force * velocity;
          roughness_penalty = calculate_roughness_penalty roughness velocity
      in if MOTOR_EFFICIENCY cfg * DRIVETRAIN_EFFICIENCY cfg = 0 then Inl ZeroDivisionError
         else Inr ((mechanical_power + roughness_penalty) /
                   (MOTOR_EFFICIENCY cfg * DRIVETRAIN_EFFICIENCY cfg)))"

text \<open>The dictionary returned by \<^verbatim>\<open>calculate_energy_consumption\<close>.\<close>

record energy_breakdown =
  distance_m :: real
  time_hours :: real
  power_watts :: real
  energy_kwh :: real
  slope_degrees :: real
  velocity_ms :: real
  roughness :: real

definition calculate_energy_consumption ::
  "rover_config \<Rightarrow> real \<Rightarrow> real \<Rightarrow> real \<Rightarrow> real \<Rightarrow> real option \<Rightarrow> error + energy_breakdown" where
  "calculate_energy_consumption cfg distance slope_deg velocity rough mass =
     (if velocity \<le> 0 then Inl (ValueError ''Velocity must be positive'')
      else
        let t_hours = distance / (velocity * 3600) in
        case calculate_power_consumption cfg slope_deg velocity rough mass of
          Inl e \<Rightarrow> Inl e
        | Inr p_watts \<Rightarrow>
            Inr \<lparr> distance_m = distance,
                  time_hours = t_hours,
                  power_watts = p_watts,
                  energy_kwh = p_watts * t_hours / 1000,
                  slope_degrees = slope_deg,
                  velocity_ms = velocity,
                  roughness = rough \<rparr>)"

definition calculate_task_energy :: "rover_config \<Rightarrow> string \<Rightarrow> real \<Rightarrow> error + real" where
  "calculate_task_energy cfg task_type duration_hours =
     (case TASK_POWER cfg task_type of
        None \<Rightarrow> Inl (ValueError (''Unknown task type: '' @ task_type))
      | Some p_watts \<Rightarrow> Inr (p_watts * duration_hours / 1000))"

subsection \<open>Tasks (\<^verbatim>\<open>sim/simulate_mission.py\<close>, class \<^verbatim>\<open>Task\<close>)\<close>

record task =
  task_id :: string
  task_type :: string
  duration_hours :: real
  urgency :: real
  reward :: real
  location :: string
  completed :: bool
  deferred :: bool
  energy_cost :: real

text \<open>The constructor \<^verbatim>\<open>Task.__init__\<close>: both flags clear, no energy cost yet.\<close>

definition Task :: "string \<Rightarrow> string \<Rightarrow> real \<Rightarrow> real \<Rightarrow> real \<Rightarrow> string \<Rightarrow> task" where
  "Task tid ty dur urg rew loc =
     \<lparr> task_id = tid, task_type = ty, duration_hours = dur, urgency = urg, reward = rew,
       location = loc, completed = False, deferred = False, energy_cost = 0.0 \<rparr>"

subsection \<open>Mission simulator state\<close>

text \<open>
  Python tasks are mutable objects shared between the caller's list, the prioritised list
  and the simulator's \<^verbatim>\<open>completed_tasks\<close> and \<^verbatim>\<open>deferred_tasks\<close> lists. The model keeps
  the objects in a store (\<open>objects\<close>, from references to task values) and the lists hold
  references (natural numbers), so that a flag set through one list is seen through every
  other, and a list may hold the same object twice.
\<close>

type_synonym task_ref = nat

record log_entry =
  log_task_id :: string
  log_task_type :: string
  log_duration_hours :: real
  energy_consumed_kwh :: real
  log_battery_level_after :: real
  status :: string

record mission_simulator =
  current_battery_level :: real
  completed_tasks :: "task_ref list"
  deferred_tasks :: "task_ref list"
  mission_log :: "log_entry list"
  objects :: "task_ref \<Rightarrow> task"

text \<open>The cost-function weights set by \<^verbatim>\<open>MissionSimulator.__init__\<close>.\<close>

definition lambda1 :: real where "lambda1 = 1.0"
definition lambda2 :: real where "lambda2 = 0.5"
definition lambda3 :: real where "lambda3 = - 2.0"

text \<open>\<^verbatim>\<open>MissionSimulator.__init__\<close> over a given store of task objects.\<close>

definition MissionSimulator :: "(task_ref \<Rightarrow> task) \<Rightarrow> mission_simulator" where
  "MissionSimulator objs =
     \<lparr> current_battery_level = 1.0, completed_tasks = [], deferred_tasks = [],
       mission_log = [], objects = objs \<rparr>"

subsection \<open>Prioritisation\<close>

text \<open>
  \<^verbatim>\<open>calculate_task_priority\<close> computes the task's energy cost, caches it on the task object
  and returns the three-term cost. An unknown task type raises out of
  \<^verbatim>\<open>calculate_task_energy\<close> before the cost is cached.
\<close>

definition calculate_task_priority ::
  "rover_config \<Rightarrow> mission_simulator \<Rightarrow> task_ref \<Rightarrow> error + (real \<times> mission_simulator)" where
  "calculate_task_priority cfg sim r =
     (let t = objects sim r in
      case calculate_task_energy cfg (task_type t) (duration_hours t) of
        Inl e \<Rightarrow> Inl e
      | Inr ec \<Rightarrow>
          let t' = t\<lparr>energy_cost := ec\<rparr>;
              sim' = sim\<lparr>objects := (objects sim)(r := t')\<rparr>;
              cost = lambda1 * ec + lambda2 * (1.0 / max (urgency t') 0.1) + lambda3 * reward t'
          in Inr (cost, sim'))"

text \<open>
  \<^verbatim>\<open>sorted(tasks, key=self.calculate_task_priority)\<close>: Python calls the key function once
  per element, in list order (\<open>priority_keys\<close>), and then sorts the elements by those keys
  with a stable sort. \<open>sort_key\<close> is a stable sort.
\<close>

fun priority_keys ::
  "rover_config \<Rightarrow> mission_simulator \<Rightarrow> task_ref list \<Rightarrow> error + (real list \<times> mission_simulator)" where
  "priority_keys cfg sim [] = Inr ([], sim)"
| "priority_keys cfg sim (r # rs) =
     (case calculate_task_priority cfg sim r of
        Inl e \<Rightarrow> Inl e
      | Inr (k, sim') \<Rightarrow>
          (case priority_keys cfg sim' rs of
             Inl e \<Rightarrow> Inl e
           | Inr (ks, sim'') \<Rightarrow> Inr (k # ks, sim'')))"

definition prioritize_tasks ::
  "rover_config \<Rightarrow> mission_simulator \<Rightarrow> task_ref list \<Rightarrow> error + (task_ref list \<times> mission_simulator)" where
  "prioritize_tasks cfg sim tasks =
     (case priority_keys cfg sim tasks of
        Inl e \<Rightarrow> Inl e
      | Inr (ks, sim') \<Rightarrow> Inr (map snd (sort_key fst (zip ks tasks)), sim'))"

subsection \<open>Greedy execution\<close>

definition can_execute_task :: "rover_config \<Rightarrow> mission_simulator \<Rightarrow> task_ref \<Rightarrow> bool" where
  "can_execute_task cfg sim r =
     (if is_critical_energy cfg (current_battery_level sim) then False
      else
        let available_energy = get_available_energy cfg (current_battery_level sim)
        in energy_cost (objects sim r) \<le> available_energy)"

text \<open>
  \<^verbatim>\<open>execute_task\<close> returns whether the task ran. The division by the battery capacity
  raises when the capacity is zero. The deduction is exact here; \<open>execute_task_f64\<close>
  below is the same function with the deduction rounded as the floats round it.
\<close>

definition execute_task ::
  "rover_config \<Rightarrow> mission_simulator \<Rightarrow> task_ref \<Rightarrow> error + (bool \<times> mission_simulator)" where
  "execute_task cfg sim r =
     (if \<not> can_execute_task cfg sim r then
        Inr (False,
             sim\<lparr> objects := (objects sim)(r := (objects sim r)\<lparr>deferred := True\<rparr>),
                  deferred_tasks := deferred_tasks sim @ [r] \<rparr>)
      else if BATTERY_CAPACITY cfg = 0 then Inl ZeroDivisionError
      else
        let energy_consumed = energy_cost (objects sim r);
            energy_fraction = energy_consumed / BATTERY_CAPACITY cfg;
            level = current_battery_level sim - energy_fraction;
            t = (objects sim r)\<lparr>completed := True\<rparr>;
            entry = \<lparr> log_task_id = task_id t,
                      log_task_type = task_type t,
                      log_duration_hours = duration_hours t,
                      energy_consumed_kwh = energy_consumed,
                      log_battery_level_after = level,
                      status = ''completed'' \<rparr>
        in Inr (True,
                sim\<lparr> current_battery_level := level,
                     objects := (objects sim)(r := t),
                     completed_tasks := completed_tasks sim @ [r],
                     mission_log := mission_log sim @ [entry] \<rparr>))"

subsection \<open>Terrain traversal\<close>

record terrain_row =
  distance :: real
  slope_deg :: real
  row_roughness :: real




subsection \<open>Mission run\<close>

text \<open>
  The halting branch of the mission loop: the tasks of the prioritised list that carry
  neither flag are collected first, and each is then flagged deferred and appended to
  \<^verbatim>\<open>deferred_tasks\<close>.
\<close>

definition defer_task :: "task_ref \<Rightarrow> mission_simulator \<Rightarrow> mission_simulator" where
  "defer_task r sim =
     sim\<lparr> objects := (objects sim)(r := (objects sim r)\<lparr>deferred := True\<rparr>),
          deferred_tasks := deferred_tasks sim @ [r] \<rparr>"

definition defer_remaining :: "mission_simulator \<Rightarrow> task_ref list \<Rightarrow> mission_simulator" where
  "defer_remaining sim prioritized_tasks =
     (let remaining_tasks =
            filter (\<lambda>t. \<not> completed (objects sim t) \<and> \<not> deferred (objects sim t)) prioritized_tasks
      in fold defer_task remaining_tasks sim)"

text \<open>
  The \<^verbatim>\<open>for task in prioritized_tasks\<close> loop of \<^verbatim>\<open>run_mission_simulation\<close>; the last
  argument is the part of the list still to be visited.
\<close>

fun mission_loop ::
  "rover_config \<Rightarrow> task_ref list \<Rightarrow> mission_simulator \<Rightarrow> task_ref list \<Rightarrow> error + mission_simulator" where
  "mission_loop cfg prioritized_tasks sim [] = Inr sim"
| "mission_loop cfg prioritized_tasks sim (r # rest) =
     (if is_critical_energy cfg (current_battery_level sim) then
        Inr (defer_remaining sim prioritized_tasks)
      else
        case execute_task cfg sim r of
          Inl e \<Rightarrow> Inl e
        | Inr (ok, sim') \<Rightarrow> mission_loop cfg prioritized_tasks sim' rest)"







definition unflagged :: "mission_simulator \<Rightarrow> task_ref \<Rightarrow> bool" where
  "unflagged sim r \<longleftrightarrow> \<not> completed (objects sim r) \<and> \<not> deferred (objects sim r)"

subsection \<open>Benchmark harness (\<^verbatim>\<open>simple_validation.py\<close>)\<close>

text \<open>
  The harness has its own task class. Its fields \<^verbatim>\<open>id\<close>, \<^verbatim>\<open>urgency\<close> and \<^verbatim>\<open>reward\<close> are
  written with a prime here, apart from the identity function and from the fields of the
  simulator's task.
\<close>

record sv_task =
  id' :: string
  type_index :: int
  duration :: real
  urgency' :: real
  reward' :: real
  power :: real
  energy :: real

text \<open>The attributes set by \<^verbatim>\<open>SimpleValidator.__init__\<close>.\<close>

record simple_validator =
  num_trials :: nat
  power_map :: "int \<rightharpoonup> real"
  battery_capacity :: real
  terrain_energy :: real
  reserve_ratio :: real

definition SimpleValidator :: "nat \<Rightarrow> simple_validator" where
  "SimpleValidator n =
     \<lparr> num_trials = n,
       power_map = map_of [(1, 50), (2, 80), (3, 120), (4, 30), (5, 45), (6, 25)],
       battery_capacity = 42.24,
       terrain_energy = 0.061,
       reserve_ratio = 0.20 \<rparr>"

text \<open>The task identifier \<^verbatim>\<open>f"T{i+1:03d}"\<close>: decimal digits, zero-padded to three.\<close>

function decimal :: "nat \<Rightarrow> string" where
  "decimal n =
     (if n < 10 then [char_of (48 + n)] else decimal (n div 10) @ [char_of (48 + n mod 10)])"
  by pat_completeness auto
termination
  by (relation "measure (\<lambda>n. n)") auto

declare decimal.simps [simp del]

definition task_label :: "nat \<Rightarrow> string" where
  "task_label n =
     (let ds = decimal n in ''T'' @ replicate (3 - length ds) (CHR ''0'') @ ds)"

text \<open>
  The pseudo-random draws are arguments. One \<open>task_draw\<close> holds the four draws of one
  iteration of the task loop: \<^verbatim>\<open>random.randint(1, 6)\<close> and three times
  \<^verbatim>\<open>random.random()\<close>.
\<close>

record task_draw =
  draw_type_index :: int
  draw_duration :: real
  draw_urgency :: real
  draw_reward :: real

record scenario =
  scenario_energy_level :: real
  scenario_tasks :: "sv_task list"

text \<open>
  The task loop of \<^verbatim>\<open>generate_random_scenario\<close>, with the loop index, the tasks built so
  far and the running total of their energy. A type index outside the power map raises
  \<^verbatim>\<open>KeyError\<close>.
\<close>

fun synthesize_tasks ::
  "simple_validator \<Rightarrow> nat \<Rightarrow> task_draw list \<Rightarrow> sv_task list \<times> real \<Rightarrow>
     error + (sv_task list \<times> real)" where
  "synthesize_tasks sv i [] acc = Inr acc"
| "synthesize_tasks sv i (dr # rest) (built, total_task_energy) =
     (let ti = draw_type_index dr;
          dur = 1.0 + draw_duration dr * 6.0;
          urg = 1 + draw_urgency dr * 9;
          rew = 10 + draw_reward dr * 90
      in case power_map sv ti of
           None \<Rightarrow> Inl KeyError
         | Some pw \<Rightarrow>
             let en = pw * dur / 1000;
                 t = \<lparr> id' = task_label (i + 1), type_index = ti, duration = dur,
                       urgency' = urg, reward' = rew, power = pw, energy = en \<rparr>
             in synthesize_tasks sv (i + 1) rest (built @ [t], total_task_energy + en))"

text \<open>
  \<^verbatim>\<open>generate_random_scenario\<close>: \<open>u\<close> is the draw for the energy level, and the list of
  task draws has \<^verbatim>\<open>num_tasks\<close> elements, the value of \<^verbatim>\<open>random.randint(12, 25)\<close>.
\<close>

definition generate_random_scenario ::
  "simple_validator \<Rightarrow> real \<Rightarrow> task_draw list \<Rightarrow> error + scenario" where
  "generate_random_scenario sv u draws =
     (let energy_level = 0.05 + u * 0.15;
          total_energy = battery_capacity sv * energy_level;
          available_energy = total_energy - terrain_energy sv;
          reserve_energy = available_energy * reserve_ratio sv;
          usable_energy = max 0 (available_energy - reserve_energy)
      in case synthesize_tasks sv 0 draws ([], 0) of
           Inl e \<Rightarrow> Inl e
         | Inr (built, total_task_energy) \<Rightarrow>
             if total_task_energy \<le> usable_energy * 2 then
               let scale_factor = (usable_energy * 3) / max total_task_energy 0.1
               in Inr \<lparr> scenario_energy_level = energy_level,
                        scenario_tasks =
                          map (\<lambda>t. t\<lparr> energy := energy t * scale_factor,
                                      duration := duration t * scale_factor \<rparr>) built \<rparr>
             else Inr \<lparr> scenario_energy_level = energy_level, scenario_tasks = built \<rparr>)"

text \<open>
  The ranges of the draws: \<^verbatim>\<open>random.random()\<close> lies in [0, 1), the task count in
  12..25 and the type index in 1..6.
\<close>

definition unit_draw :: "real \<Rightarrow> bool" where
  "unit_draw x \<longleftrightarrow> 0 \<le> x \<and> x < 1"

definition task_draw_ok :: "task_draw \<Rightarrow> bool" where
  "task_draw_ok dr \<longleftrightarrow>
     1 \<le> draw_type_index dr \<and> draw_type_index dr \<le> 6 \<and>
     unit_draw (draw_duration dr) \<and> unit_draw (draw_urgency dr) \<and> unit_draw (draw_reward dr)"

definition draws_ok :: "real \<Rightarrow> task_draw list \<Rightarrow> bool" where
  "draws_ok u draws \<longleftrightarrow>
     unit_draw u \<and> 12 \<le> length draws \<and> length draws \<le> 25 \<and> list_all task_draw_ok draws"

text \<open>The usable energy of a scenario, as both the generator and the executor compute it.\<close>

definition usable_energy_at :: "simple_validator \<Rightarrow> real \<Rightarrow> real" where
  "usable_energy_at sv energy_level =
     (let total_energy = battery_capacity sv * energy_level;
          available_energy = total_energy - terrain_energy sv;
          reserve_energy = available_energy * reserve_ratio sv
      in max 0 (available_energy - reserve_energy))"

subsection \<open>Scheduling policies of the harness\<close>

text \<open>
  \<^verbatim>\<open>sorted\<close> and \<^verbatim>\<open>list.sort\<close> are stable, as \<open>sort_key\<close> is. A sort with
  \<^verbatim>\<open>reverse=True\<close> keeps the input order of equal keys, so on numeric keys it is the
  stable sort by the negated key.
\<close>

definition fifo_scheduler :: "sv_task list \<Rightarrow> sv_task list" where
  "fifo_scheduler ts = ts"

definition energy_greedy_scheduler :: "sv_task list \<Rightarrow> sv_task list" where
  "energy_greedy_scheduler ts = sort_key energy ts"

definition urgency_first_scheduler :: "sv_task list \<Rightarrow> sv_task list" where
  "urgency_first_scheduler ts = sort_key (\<lambda>t. - urgency' t) ts"

definition wspt_scheduler :: "sv_task list \<Rightarrow> sv_task list" where
  "wspt_scheduler ts = sort_key (\<lambda>t. - (reward' t / max (duration t) 0.01)) ts"

text \<open>The body of the loop of \<^verbatim>\<open>our_prioritization_scheduler\<close>: the priority of one task.\<close>

definition task_priority :: "sv_task \<Rightarrow> real" where
  "task_priority t =
     (let e_cost = 1.0 * energy t;
          urgency_factor = 0.5 * (1.0 / max (urgency' t) 0.1);
          reward_factor = - 2.0 * reward' t;
          energy_efficiency = reward' t / max (energy t) 0.001;
          efficiency_bonus = - 0.5 * energy_efficiency;
          time_sensitivity_bonus =
            (if urgency' t > 8.0 then - 1.0 else if urgency' t < 3.0 then 0.5 else 0)
      in e_cost + urgency_factor + reward_factor + efficiency_bonus + time_sensitivity_bonus)"

definition our_prioritization_scheduler :: "sv_task list \<Rightarrow> sv_task list" where
  "our_prioritization_scheduler ts =
     (let priorities = map (\<lambda>t. (task_priority t, t)) ts
      in map snd (sort_key fst priorities))"

text \<open>
  The composite cost as the specification writes it, over the energy, urgency and reward
  of a task.
\<close>

definition tau :: "real \<Rightarrow> real" where
  "tau urg = (if urg > 8 then - 1.0 else if urg < 3 then 0.5 else 0)"

definition weighted_cost :: "real \<Rightarrow> real \<Rightarrow> real \<Rightarrow> real" where
  "weighted_cost en urg rew =
     1.0 * en + 0.5 * (1 / max urg 0.1) + (- 2.0) * rew + (- 0.5) * (rew / max en 0.001) + tau urg"

text \<open>The three-term cost of the mission simulator, over the same quantities.\<close>

definition three_term_cost :: "real \<Rightarrow> real \<Rightarrow> real \<Rightarrow> real" where
  "three_term_cost en urg rew = 1.0 * en + 0.5 * (1 / max urg 0.1) + (- 2.0) * rew"

subsection \<open>Task execution of the harness\<close>

record execution_result =
  result_completed_tasks :: "sv_task list"
  result_total_energy :: real
  result_total_reward :: real

text \<open>
  The loop of \<^verbatim>\<open>simulate_task_execution\<close> over the remaining usable energy, the completed
  tasks, the energy used and the reward collected.
\<close>

fun execution_loop ::
  "sv_task list \<Rightarrow> real \<times> sv_task list \<times> real \<times> real \<Rightarrow> real \<times> sv_task list \<times> real \<times> real" where
  "execution_loop [] st = st"
| "execution_loop (t # rest) (usable_energy, done_tasks, energy_used, total_reward) =
     (if energy t \<le> usable_energy then
        execution_loop rest
          (usable_energy - energy t, done_tasks @ [t], energy_used + energy t,
           total_reward + reward' t)
      else execution_loop rest (usable_energy, done_tasks, energy_used, total_reward))"

definition simulate_task_execution ::
  "simple_validator \<Rightarrow> sv_task list \<Rightarrow> real \<Rightarrow> execution_result" where
  "simulate_task_execution sv ordered_tasks energy_level =
     (let total_energy = battery_capacity sv * energy_level;
          available_energy = total_energy - terrain_energy sv;
          reserve_energy = available_energy * reserve_ratio sv;
          usable_energy = max 0 (available_energy - reserve_energy)
      in case execution_loop ordered_tasks (usable_energy, [], terrain_energy sv, 0) of
           (left_over, done_tasks, energy_used, total_reward) \<Rightarrow>
             \<lparr> result_completed_tasks = done_tasks,
               result_total_energy = energy_used,
               result_total_reward = total_reward \<rparr>)"

subsection \<open>Effect size\<close>

text \<open>
  \<^verbatim>\<open>statistics.mean\<close> and \<^verbatim>\<open>statistics.variance\<close> (the sample variance); they raise
  \<^verbatim>\<open>StatisticsError\<close> on fewer than one and fewer than two data points.
\<close>

datatype stat_error = StatisticsError

definition statistics_mean :: "real list \<Rightarrow> stat_error + real" where
  "statistics_mean xs =
     (if xs = [] then Inl StatisticsError else Inr (sum_list xs / real (length xs)))"

definition statistics_variance :: "real list \<Rightarrow> stat_error + real" where
  "statistics_variance xs =
     (if length xs < 2 then Inl StatisticsError
      else
        let m = sum_list xs / real (length xs)
        in Inr (sum_list (map (\<lambda>x. (x - m)\<^sup>2) xs) / real (length xs - 1)))"

definition calculate_cohens_d :: "real list \<Rightarrow> real list \<Rightarrow> stat_error + real" where
  "calculate_cohens_d group1 group2 =
     (if length group1 = 0 \<or> length group2 = 0 then Inr 0.0
      else
        case statistics_mean group1 of Inl e \<Rightarrow> Inl e | Inr mean1 \<Rightarrow>
        case statistics_mean group2 of Inl e \<Rightarrow> Inl e | Inr mean2 \<Rightarrow>
        case (if length group1 = 1 then Inr 0 else statistics_variance group1) of
          Inl e \<Rightarrow> Inl e | Inr var1 \<Rightarrow>
        case (if length group2 = 1 then Inr 0 else statistics_variance group2) of
          Inl e \<Rightarrow> Inl e | Inr var2 \<Rightarrow>
        let pooled_std = sqrt ((var1 + var2) / 2)
        in if pooled_std = 0 then Inr 0.0 else Inr ((mean1 - mean2) / pooled_std))"

text \<open>
  The quantities the effect size is stated over: the arithmetic mean, the sample variance
  (taken as zero for a single data point) and the pooled standard deviation.
\<close>

definition mean_of :: "real list \<Rightarrow> real" where
  "mean_of xs = sum_list xs / real (length xs)"

definition variance_of :: "real list \<Rightarrow> real" where
  "variance_of xs =
     (if length xs = 1 then 0
      else sum_list (map (\<lambda>x. (x - mean_of xs)\<^sup>2) xs) / real (length xs - 1))"

definition pooled_std_of :: "real list \<Rightarrow> real list \<Rightarrow> real" where
  "pooled_std_of xs ys = sqrt ((variance_of xs + variance_of ys) / 2)"

subsection \<open>Costs the orderings are stated over\<close>

text \<open>
  \<open>cache_cost\<close> is a task with its energy cost computed from its type and duration and
  cached, as prioritisation leaves it; \<open>mission_cost\<close> and \<open>benchmark_cost\<close> are the
  three-term and the five-term cost of a task of the simulator and of the harness.
\<close>

definition cache_cost :: "rover_config \<Rightarrow> task \<Rightarrow> task" where
  "cache_cost cfg t =
     (case TASK_POWER cfg (task_type t) of
        None \<Rightarrow> t
      | Some p \<Rightarrow> t\<lparr>energy_cost := p * duration_hours t / 1000\<rparr>)"

definition mission_cost :: "task \<Rightarrow> real" where
  "mission_cost t = three_term_cost (energy_cost t) (urgency t) (reward t)"

definition benchmark_cost :: "sv_task \<Rightarrow> real" where
  "benchmark_cost t = weighted_cost (energy t) (urgency' t) (reward' t)"

subsection \<open>Binary64 arithmetic\<close>

text \<open>
  A Python float is an IEEE 754 binary64 number, and every arithmetic operation on floats
  yields the exact result rounded to the nearest binary64 number, ties to the even
  significand. \<open>binary64\<close> is that rounding: the argument is scaled so that its
  significand has 53 bits, rounded to an integer and scaled back. The exponent is not
  bounded here, so overflow to infinity and the subnormal numbers are outside the model.
\<close>

definition round_half_even :: "real \<Rightarrow> int" where
  "round_half_even y =
     (let f = \<lfloor>y\<rfloor>; d = y - of_int f
      in if d < 1 / 2 then f else if 1 / 2 < d then f + 1 else if even f then f else f + 1)"

definition binary64 :: "real \<Rightarrow> real" where
  "binary64 x =
     (if x = 0 then 0
      else
        let e = \<lfloor>log 2 \<bar>x\<bar>\<rfloor> - 52
        in of_int (round_half_even (x / 2 powr of_int e)) * 2 powr of_int e)"

text \<open>The unit roundoff: the relative error of one rounding is at most this.\<close>

definition unit_roundoff :: real where
  "unit_roundoff = 1 / 2 ^ 53"

text \<open>
  A configuration as the floats hold it: every literal of the class is the binary64 number
  nearest to it.
\<close>

definition double_config :: "rover_config \<Rightarrow> rover_config" where
  "double_config cfg =
     \<lparr> GRAVITY_MARS = binary64 (GRAVITY_MARS cfg),
       MASS = binary64 (MASS cfg),
       BATTERY_CAPACITY = binary64 (BATTERY_CAPACITY cfg),
       ROLLING_RESISTANCE_COEFF = binary64 (ROLLING_RESISTANCE_COEFF cfg),
       MOTOR_EFFICIENCY = binary64 (MOTOR_EFFICIENCY cfg),
       DRIVETRAIN_EFFICIENCY = binary64 (DRIVETRAIN_EFFICIENCY cfg),
       NOMINAL_VELOCITY = binary64 (NOMINAL_VELOCITY cfg),
       TASK_POWER = (\<lambda>ty. map_option binary64 (TASK_POWER cfg ty)),
       ENERGY_RESERVE_RATIO = binary64 (ENERGY_RESERVE_RATIO cfg),
       CRITICAL_ENERGY_THRESHOLD = binary64 (CRITICAL_ENERGY_THRESHOLD cfg) \<rparr>"

text \<open>
  \<^verbatim>\<open>calculate_task_energy\<close>, \<^verbatim>\<open>get_available_energy\<close>, \<^verbatim>\<open>can_execute_task\<close> and
  \<^verbatim>\<open>execute_task\<close> once more, with every arithmetic operation rounded as Python rounds
  it. Comparisons are exact. Nothing else differs from the definitions above.
\<close>

definition calculate_task_energy_f64 :: "rover_config \<Rightarrow> string \<Rightarrow> real \<Rightarrow> error + real" where
  "calculate_task_energy_f64 cfg ty dur =
     (case TASK_POWER cfg ty of
        None \<Rightarrow> Inl (ValueError (''Unknown task type: '' @ ty))
      | Some p_watts \<Rightarrow> Inr (binary64 (binary64 (p_watts * dur) / 1000)))"

definition get_available_energy_f64 :: "rover_config \<Rightarrow> real \<Rightarrow> real" where
  "get_available_energy_f64 cfg level =
     (let total_energy = binary64 (BATTERY_CAPACITY cfg * level);
          reserve_energy = binary64 (BATTERY_CAPACITY cfg * ENERGY_RESERVE_RATIO cfg)
      in max 0 (binary64 (total_energy - reserve_energy)))"

definition can_execute_task_f64 :: "rover_config \<Rightarrow> mission_simulator \<Rightarrow> task_ref \<Rightarrow> bool" where
  "can_execute_task_f64 cfg sim r =
     (if is_critical_energy cfg (current_battery_level sim) then False
      else
        let available_energy = get_available_energy_f64 cfg (current_battery_level sim)
        in energy_cost (objects sim r) \<le> available_energy)"

definition execute_task_f64 ::
  "rover_config \<Rightarrow> mission_simulator \<Rightarrow> task_ref \<Rightarrow> error + (bool \<times> mission_simulator)" where
  "execute_task_f64 cfg sim r =
     (if \<not> can_execute_task_f64 cfg sim r then
        Inr (False,
             sim\<lparr> objects := (objects sim)(r := (objects sim r)\<lparr>deferred := True\<rparr>),
                  deferred_tasks := deferred_tasks sim @ [r] \<rparr>)
      else if BATTERY_CAPACITY cfg = 0 then Inl ZeroDivisionError
      else
        let energy_consumed = energy_cost (objects sim r);
            energy_fraction = binary64 (energy_consumed / BATTERY_CAPACITY cfg);
            level = binary64 (current_battery_level sim - energy_fraction);
            t = (objects sim r)\<lparr>completed := True\<rparr>;
            entry = \<lparr> log_task_id = task_id t,
                      log_task_type = task_type t,
                      log_duration_hours = duration_hours t,
                      energy_consumed_kwh = energy_consumed,
                      log_battery_level_after = level,
                      status = ''completed'' \<rparr>
        in Inr (True,
                sim\<lparr> current_battery_level := level,
                     objects := (objects sim)(r := t),
                     completed_tasks := completed_tasks sim @ [r],
                     mission_log := mission_log sim @ [entry] \<rparr>))"

definition cache_cost_f64 :: "rover_config \<Rightarrow> task \<Rightarrow> task" where
  "cache_cost_f64 cfg t =
     (case calculate_task_energy_f64 cfg (task_type t) (duration_hours t) of
        Inl e \<Rightarrow> t
      | Inr c \<Rightarrow> t\<lparr>energy_cost := c\<rparr>)"

subsection \<open>Sample data\<close>

text \<open>\<^verbatim>\<open>create_sample_tasks\<close> of \<^verbatim>\<open>sim/simulate_mission.py\<close>.\<close>

definition create_sample_tasks :: "task list" where
  "create_sample_tasks =
     [Task ''T001'' ''sample_collection'' 2.0 8.0 10.0 ''Crater A'',
      Task ''T002'' ''imaging'' 0.5 6.0 5.0 ''Rock Formation B'',
      Task ''T003'' ''drilling'' 3.0 9.0 15.0 ''Mineral Deposit C'',
      Task ''T004'' ''spectrometry'' 1.0 7.0 8.0 ''Soil Sample D'',
      Task ''T005'' ''navigation'' 0.25 5.0 3.0 ''Waypoint E'',
      Task ''T006'' ''communication'' 0.5 4.0 2.0 ''Earth Contact'',
      Task ''T007'' ''sample_collection'' 1.5 8.5 12.0 ''Unusual Rock F'',
      Task ''T008'' ''imaging'' 0.75 6.5 6.0 ''Panoramic View G'']"

text \<open>
  A store holding the objects of a Python list of tasks: the object at position \<open>i\<close> of
  the list has the reference \<open>i\<close>.
\<close>

definition store_of :: "task list \<Rightarrow> task_ref \<Rightarrow> task" where
  "store_of ts r = (if r < length ts then ts ! r else Task [] [] 0 0 0 [])"

text \<open>Two tasks, as simulator tasks and as harness tasks with their energy costs.\<close>

definition task_A :: task where "task_A = Task ''A'' ''drilling'' 3 5 10 ''site''"
definition task_B :: task where "task_B = Task ''B'' ''communication'' 0.1 5 9 ''site''"

definition sv_task_A :: sv_task where
  "sv_task_A = \<lparr> id' = ''T001'', type_index = 3, duration = 3, urgency' = 5, reward' = 10,
                 power = 120, energy = 0.36 \<rparr>"

definition sv_task_B :: sv_task where
  "sv_task_B = \<lparr> id' = ''T002'', type_index = 6, duration = 0.1, urgency' = 5, reward' = 9,
                 power = 25, energy = 0.0025 \<rparr>"



text \<open>
  Three tasks with their cached energy costs (12, 5 and 5 kWh), in an order that is not
  ascending by cost, and three harness tasks of 6, 2.5 and 2.5 kWh.
\<close>

definition greedy_tasks :: "task list" where
  "greedy_tasks =
     map (cache_cost RoverConfig)
       [Task ''T001'' ''drilling'' 100 5 10 ''Site A'',
        Task ''T002'' ''navigation'' 100 5 10 ''Site B'',
        Task ''T003'' ''navigation'' 100 5 10 ''Site C'']"

definition greedy_sv_tasks :: "sv_task list" where
  "greedy_sv_tasks =
     [\<lparr> id' = ''T001'', type_index = 3, duration = 50, urgency' = 5, reward' = 10,
        power = 120, energy = 6 \<rparr>,
      \<lparr> id' = ''T002'', type_index = 1, duration = 50, urgency' = 5, reward' = 10,
        power = 50, energy = 2.5 \<rparr>,
      \<lparr> id' = ''T003'', type_index = 1, duration = 50, urgency' = 5, reward' = 10,
        power = 50, energy = 2.5 \<rparr>]"

text \<open>
  A drilling task of 281.6 hours, with its energy cost as the floats compute it: it costs
  exactly the energy available at a full battery.
\<close>

definition boundary_task :: task where
  "boundary_task =
     cache_cost_f64 (double_config RoverConfig)
       (Task ''T001'' ''drilling'' (binary64 281.6) 5 10 ''Site A'')"


section \<open>Properties\<close>

lemma RoverConfig_simps:
  "BATTERY_CAPACITY RoverConfig = 42.24"
  "ENERGY_RESERVE_RATIO RoverConfig = 0.20"
  "CRITICAL_ENERGY_THRESHOLD RoverConfig = 0.10"
  "MOTOR_EFFICIENCY RoverConfig = 0.85"
  "DRIVETRAIN_EFFICIENCY RoverConfig = 0.90"
  "MASS RoverConfig = 899"
  "GRAVITY_MARS RoverConfig = 3.71"
  "ROLLING_RESISTANCE_COEFF RoverConfig = 0.15"
  "NOMINAL_VELOCITY RoverConfig = 0.042"
  by (simp_all add: RoverConfig_def)

subsection \<open>Segment energy: invalid velocity\<close>

text \<open>
  Claim C6. The segment energy computation raises the invalid-input error
  (\<^verbatim>\<open>ValueError\<close>) exactly when the velocity is at most zero, whatever the distance, slope,
  roughness and mass. For a positive velocity (and a configuration whose efficiencies are
  not zero, so that the power computation divides) it returns the breakdown with
  time = distance / (velocity * 3600) hours and energy = power * time / 1000 kWh.
\<close>

theorem calculate_energy_consumption_invalid_iff:
  "((\<exists>msg. calculate_energy_consumption cfg dst slope v rough mass = Inl (ValueError msg))
      \<longleftrightarrow> v \<le> 0) \<and>
   (0 < v \<and> MOTOR_EFFICIENCY cfg * DRIVETRAIN_EFFICIENCY cfg \<noteq> 0 \<longrightarrow>
      (\<exists>p. calculate_power_consumption cfg slope v rough mass = Inr p \<and>
           calculate_energy_consumption cfg dst slope v rough mass =
             Inr \<lparr> distance_m = dst, time_hours = dst / (v * 3600), power_watts = p,
                   energy_kwh = p * (dst / (v * 3600)) / 1000,
                   slope_degrees = slope, velocity_ms = v, roughness = rough \<rparr>))"
  by (auto simp: calculate_energy_consumption_def calculate_power_consumption_def Let_def
           split: sum.splits)

theorem calculate_energy_consumption_invalid_iff_witness:
  "(\<exists>msg. calculate_energy_consumption RoverConfig 100 10 0 0.1 None = Inl (ValueError msg)) \<and>
   (\<exists>p. calculate_power_consumption RoverConfig 0 1 0 None = Inr p \<and>
        calculate_energy_consumption RoverConfig 3600 0 1 0 None =
          Inr \<lparr> distance_m = 3600, time_hours = 1, power_watts = p, energy_kwh = p / 1000,
                slope_degrees = 0, velocity_ms = 1, roughness = 0 \<rparr>)"
  using calculate_energy_consumption_invalid_iff
          [where cfg = RoverConfig and dst = 100 and slope = 10 and v = 0 and rough = "0.1" and mass = None]
        calculate_energy_consumption_invalid_iff
          [where cfg = RoverConfig and dst = 3600 and slope = 0 and v = 1 and rough = 0 and mass = None]
  by (simp add: RoverConfig_simps)

subsection \<open>Rolling resistance\<close>

text \<open>
  Claim C8, counterexample. On a slope of 180 degrees the rolling resistance of the
  configured rover is negative: the cosine of the slope is negative beyond 90 degrees, and
  the code puts no bound on the slope.
\<close>

theorem rolling_resistance_negative_at_180:
  "calculate_rolling_resistance RoverConfig None 180 < 0"
  by (simp add: calculate_rolling_resistance_def RoverConfig_simps radians_def
                mass_or_default_def Let_def)

lemma cos_radians_nonneg:
  assumes lo: "- 90 \<le> slope" and hi: "slope \<le> 90"
  shows "0 \<le> cos (radians slope)"
proof (rule cos_ge_zero)
  have "pi * (- 90) \<le> pi * slope"
    using lo by (intro mult_left_mono) simp_all
  then show "- (pi / 2) \<le> radians slope"
    unfolding radians_def by (simp add: mult.commute)
  have "pi * slope \<le> pi * 90"
    using hi by (intro mult_left_mono) simp_all
  then show "radians slope \<le> pi / 2"
    unfolding radians_def by (simp add: mult.commute)
qed

text \<open>
  Claim C8, amended. For every slope and mass the rolling resistance is
  coefficient * mass * gravity * cos (slope in radians); it is non-negative for every
  positive mass when the slope lies between -90 and 90 degrees (and the configured
  coefficient and gravity are not negative).
\<close>

theorem rolling_resistance_formula_nonneg:
  "calculate_rolling_resistance cfg mass slope =
     ROLLING_RESISTANCE_COEFF cfg * mass_or_default cfg mass * GRAVITY_MARS cfg * cos (radians slope) \<and>
   (0 \<le> ROLLING_RESISTANCE_COEFF cfg \<and> 0 \<le> GRAVITY_MARS cfg \<and> 0 < mass_or_default cfg mass \<and>
    - 90 \<le> slope \<and> slope \<le> 90 \<longrightarrow> 0 \<le> calculate_rolling_resistance cfg mass slope)"
  using cos_radians_nonneg [of slope]
  by (auto simp: calculate_rolling_resistance_def Let_def)

theorem rolling_resistance_formula_nonneg_witness:
  "calculate_rolling_resistance RoverConfig (Some 10) 0 = 0.15 * 10 * 3.71 * cos (radians 0) \<and>
   0 \<le> calculate_rolling_resistance RoverConfig (Some 10) 0"
  using rolling_resistance_formula_nonneg [of RoverConfig "Some 10" 0]
  by (simp add: RoverConfig_simps mass_or_default_def)

subsection \<open>Task energy: what is rejected\<close>

text \<open>
  Claim C4, counterexample. A negative duration is not rejected: for the known task type
  drilling and a duration of -1 hours the cost computation returns -0.12 kWh.
\<close>

theorem task_energy_accepts_negative_duration:
  "calculate_task_energy RoverConfig ''drilling'' (- 1) = Inr (- 0.12)"
  by (simp add: calculate_task_energy_def RoverConfig_def)

lemma calculate_task_priority_task_type:
  "calculate_task_priority cfg sim r = Inr (k, sim') \<Longrightarrow>
     task_type (objects sim' x) = task_type (objects sim x)"
  by (auto simp: calculate_task_priority_def Let_def split: sum.splits)

lemma calculate_task_priority_unknown:
  "TASK_POWER cfg (task_type (objects sim r)) = None \<Longrightarrow>
     \<exists>e. calculate_task_priority cfg sim r = Inl e"
  by (simp add: calculate_task_priority_def calculate_task_energy_def Let_def)

lemma priority_keys_unknown:
  "\<exists>r \<in> set rs. TASK_POWER cfg (task_type (objects sim r)) = None \<Longrightarrow>
     \<exists>e. priority_keys cfg sim rs = Inl e"
proof (induction rs arbitrary: sim)
  case Nil
  then show ?case by simp
next
  case (Cons r rs)
  show ?case
  proof (cases "calculate_task_priority cfg sim r")
    case (Inl e)
    then show ?thesis by simp
  next
    case (Inr res)
    obtain k sim' where res: "res = (k, sim')" by (cases res)
    have known: "TASK_POWER cfg (task_type (objects sim r)) \<noteq> None"
      using calculate_task_priority_unknown [of cfg sim r] Inr by auto
    have "\<exists>x \<in> set rs. TASK_POWER cfg (task_type (objects sim' x)) = None"
      using Cons.prems known calculate_task_priority_task_type [of cfg sim r k sim'] Inr res
      by auto
    then obtain e where "priority_keys cfg sim' rs = Inl e"
      using Cons.IH by blast
    then show ?thesis using Inr res by simp
  qed
qed

lemma prioritize_tasks_unknown:
  "\<exists>r \<in> set rs. TASK_POWER cfg (task_type (objects sim r)) = None \<Longrightarrow>
     \<exists>e. prioritize_tasks cfg sim rs = Inl e"
  using priority_keys_unknown [of rs cfg sim] by (auto simp: prioritize_tasks_def)

text \<open>
  Claim C4, amended. The cost computation is rejected with an error exactly when the task
  type is absent from the configuration's power mapping; for a known type it returns
  power * duration / 1000 for every duration, positive or not. The rejection comes before
  any ordering or execution: prioritising a task list that holds a task of unknown type
  raises.
\<close>

theorem task_energy_rejects_unknown_type_only:
  "((\<exists>e. calculate_task_energy cfg ty d = Inl e) \<longleftrightarrow> TASK_POWER cfg ty = None) \<and>
   (\<forall>p. TASK_POWER cfg ty = Some p \<longrightarrow> calculate_task_energy cfg ty d = Inr (p * d / 1000)) \<and>
   ((\<exists>r \<in> set tasks. TASK_POWER cfg (task_type (objects sim r)) = None) \<longrightarrow>
      (\<exists>e. prioritize_tasks cfg sim tasks = Inl e))"
  using prioritize_tasks_unknown [of tasks cfg sim]
  by (auto simp: calculate_task_energy_def split: option.splits)

theorem task_energy_rejects_unknown_type_only_witness:
  "(\<exists>e. calculate_task_energy RoverConfig ''juggling'' 1 = Inl e) \<and>
   calculate_task_energy RoverConfig ''imaging'' (- 2) = Inr (30 * (- 2) / 1000) \<and>
   (\<exists>e. prioritize_tasks RoverConfig
          (MissionSimulator (store_of [Task ''T1'' ''imaging'' 1 5 5 ''A'', Task ''T2'' ''juggling'' 1 5 5 ''B'']))
          [0, 1] = Inl e)"
proof -
  have a: "TASK_POWER RoverConfig ''juggling'' = None"
    by (simp add: RoverConfig_def)
  have b: "TASK_POWER RoverConfig ''imaging'' = Some 30"
    by (simp add: RoverConfig_def)
  have c: "\<exists>r \<in> set [0, 1::nat]. TASK_POWER RoverConfig
      (task_type (objects (MissionSimulator
         (store_of [Task ''T1'' ''imaging'' 1 5 5 ''A'', Task ''T2'' ''juggling'' 1 5 5 ''B''])) r)) = None"
    by (simp add: RoverConfig_def MissionSimulator_def store_of_def Task_def)
  note w1 = task_energy_rejects_unknown_type_only [of RoverConfig "''juggling''" 1 "[0, 1]"
      "MissionSimulator (store_of [Task ''T1'' ''imaging'' 1 5 5 ''A'', Task ''T2'' ''juggling'' 1 5 5 ''B''])"]
  note w2 = task_energy_rejects_unknown_type_only [of RoverConfig "''imaging''" "- 2" "[]"
      "MissionSimulator (store_of [])"]
  have "\<exists>e. calculate_task_energy RoverConfig ''juggling'' 1 = Inl e"
    using w1 a by blast
  moreover have "calculate_task_energy RoverConfig ''imaging'' (- 2) = Inr (30 * (- 2) / 1000)"
    using w2 b by blast
  moreover have "\<exists>e. prioritize_tasks RoverConfig
          (MissionSimulator (store_of [Task ''T1'' ''imaging'' 1 5 5 ''A'', Task ''T2'' ''juggling'' 1 5 5 ''B'']))
          [0, 1] = Inl e"
    using w1 c by blast
  ultimately show ?thesis by blast
qed

subsection \<open>Completed tasks keep the reserve\<close>

text \<open>
  Over exact arithmetic, a task that \<^verbatim>\<open>execute_task\<close> runs with a strictly positive
  cached energy cost (and a positive battery capacity) leaves the battery level at or
  above the configured reserve ratio.
\<close>

lemma execute_task_keeps_reserve_exact:
  assumes cap: "0 < BATTERY_CAPACITY cfg"
    and cost: "0 < energy_cost (objects sim r)"
    and ran: "execute_task cfg sim r = Inr (True, sim')"
  shows "can_execute_task cfg sim r \<and>
         completed (objects sim' r) \<and>
         current_battery_level sim' =
           current_battery_level sim - energy_cost (objects sim r) / BATTERY_CAPACITY cfg \<and>
         ENERGY_RESERVE_RATIO cfg \<le> current_battery_level sim' \<and>
         log_battery_level_after (last (mission_log sim')) = current_battery_level sim'"
proof -
  have can: "can_execute_task cfg sim r"
    using ran by (auto simp: execute_task_def split: if_splits)
  then have "energy_cost (objects sim r) \<le>
      max 0 (BATTERY_CAPACITY cfg * current_battery_level sim -
             BATTERY_CAPACITY cfg * ENERGY_RESERVE_RATIO cfg)"
    by (auto simp: can_execute_task_def get_available_energy_def Let_def split: if_splits)
  with cost have le: "energy_cost (objects sim r) \<le>
      BATTERY_CAPACITY cfg * (current_battery_level sim - ENERGY_RESERVE_RATIO cfg)"
    by (simp add: max_def right_diff_distrib split: if_splits)
  have "energy_cost (objects sim r) / BATTERY_CAPACITY cfg \<le>
      current_battery_level sim - ENERGY_RESERVE_RATIO cfg"
    using le cap by (simp add: pos_divide_le_eq mult.commute)
  then have res: "ENERGY_RESERVE_RATIO cfg \<le>
      current_battery_level sim - energy_cost (objects sim r) / BATTERY_CAPACITY cfg"
    by simp
  from ran can cap show ?thesis
    using res by (auto simp: execute_task_def Let_def split: if_splits)
qed

text \<open>The rounding to binary64: its error, its sign and its value at a given scale.\<close>

lemma round_half_even_error: "\<bar>of_int (round_half_even y) - y\<bar> \<le> 1 / 2"
proof -
  have "of_int \<lfloor>y\<rfloor> \<le> y" "y < of_int \<lfloor>y\<rfloor> + 1"
    by linarith+
  then show ?thesis
    by (auto simp: round_half_even_def Let_def)
qed

lemma binary64_error: "\<bar>binary64 x - x\<bar> \<le> \<bar>x\<bar> / 2 ^ 53"
proof (cases "x = 0")
  case True
  then show ?thesis by (simp add: binary64_def)
next
  case False
  define e where "e = \<lfloor>log 2 \<bar>x\<bar>\<rfloor> - 52"
  define s :: real where "s = 2 powr of_int e"
  have s_pos: "0 < s" by (simp add: s_def)
  have b: "binary64 x = of_int (round_half_even (x / s)) * s"
    using False by (simp add: binary64_def e_def s_def Let_def)
  have "binary64 x - x = (of_int (round_half_even (x / s)) - x / s) * s"
    using s_pos by (simp add: b field_simps)
  then have "\<bar>binary64 x - x\<bar> = \<bar>of_int (round_half_even (x / s)) - x / s\<bar> * s"
    using s_pos by (simp add: abs_mult)
  also have "\<dots> \<le> 1 / 2 * s"
    using round_half_even_error [of "x / s"] s_pos by (intro mult_right_mono) simp_all
  finally have half: "\<bar>binary64 x - x\<bar> \<le> s / 2" by simp
  have "of_int e + 52 \<le> log 2 \<bar>x\<bar>"
    unfolding e_def by simp
  then have "2 powr (of_int e + 52) \<le> 2 powr log 2 \<bar>x\<bar>"
    by simp
  then have "s * 2 ^ 52 \<le> \<bar>x\<bar>"
    using False by (simp add: s_def powr_add)
  then have "s / 2 \<le> \<bar>x\<bar> / 2 ^ 53"
    by (simp add: field_simps)
  with half show ?thesis by linarith
qed

lemma binary64_eval:
  assumes pos: "0 < x" and lo: "2 ^ 52 \<le> x * 2 ^ n" and hi: "x * 2 ^ n < 2 ^ 53"
  shows "binary64 x = of_int (round_half_even (x * 2 ^ n)) / 2 ^ n"
proof -
  have t: "0 < x * 2 ^ n" using pos by simp
  have "log 2 (x * 2 ^ n) = log 2 x + real n"
    using pos by (simp add: log_mult log_nat_power)
  moreover have "52 \<le> log 2 (x * 2 ^ n)"
    using lo t by (simp add: le_log_iff)
  moreover have "log 2 (x * 2 ^ n) < 53"
    using hi t by (simp add: log_less_iff)
  ultimately have "\<lfloor>log 2 x\<rfloor> = 52 - int n"
    by (intro floor_unique) simp_all
  then have ex: "real_of_int (\<lfloor>log 2 \<bar>x\<bar>\<rfloor> - 52) = - real n"
    using pos by simp
  have p: "2 powr real_of_int (\<lfloor>log 2 \<bar>x\<bar>\<rfloor> - 52) = 1 / 2 ^ n"
    unfolding ex by (simp add: powr_minus powr_realpow divide_inverse)
  show ?thesis
    unfolding binary64_def Let_def p using pos by simp
qed


lemma unit_roundoff_bounds: "0 \<le> unit_roundoff" "unit_roundoff \<le> 1 / 4" "unit_roundoff < 1"
  by (simp_all add: unit_roundoff_def)

lemma binary64_relative_error: "\<bar>binary64 x - x\<bar> \<le> unit_roundoff * \<bar>x\<bar>"
  using binary64_error [of x] by (simp add: unit_roundoff_def)

lemma binary64_upper: "0 \<le> x \<Longrightarrow> binary64 x \<le> x * (1 + unit_roundoff)"
proof -
  assume x: "0 \<le> x"
  have "binary64 x - x \<le> \<bar>binary64 x - x\<bar>" by simp
  also have "\<dots> \<le> unit_roundoff * x"
    using binary64_relative_error [of x] x by simp
  finally show ?thesis by (simp add: algebra_simps)
qed

lemma binary64_lower: "0 \<le> x \<Longrightarrow> x * (1 - unit_roundoff) \<le> binary64 x"
proof -
  assume x: "0 \<le> x"
  have "x - binary64 x \<le> \<bar>binary64 x - x\<bar>" by simp
  also have "\<dots> \<le> unit_roundoff * x"
    using binary64_relative_error [of x] x by simp
  finally show ?thesis by (simp add: algebra_simps)
qed

lemma binary64_error_abs: "x - unit_roundoff * \<bar>x\<bar> \<le> binary64 x"
proof -
  have "x - binary64 x \<le> \<bar>binary64 x - x\<bar>" by simp
  also have "\<dots> \<le> unit_roundoff * \<bar>x\<bar>"
    by (rule binary64_relative_error)
  finally show ?thesis by simp
qed

lemma binary64_pos_imp: "0 < binary64 x \<Longrightarrow> 0 < x"
proof (rule ccontr)
  assume b: "0 < binary64 x" and "\<not> 0 < x"
  then have x: "x \<le> 0" by simp
  have "binary64 x - x \<le> \<bar>binary64 x - x\<bar>" by simp
  also have "\<dots> \<le> unit_roundoff * (- x)"
    using binary64_relative_error [of x] x by simp
  finally have "binary64 x \<le> x * (1 - unit_roundoff)"
    by (simp add: algebra_simps)
  also have "\<dots> \<le> 0"
    using x unit_roundoff_bounds by (intro mult_nonpos_nonneg) simp_all
  finally show False using b by simp
qed

lemma binary64_nonneg: "0 \<le> x \<Longrightarrow> 0 \<le> binary64 x"
proof -
  assume x: "0 \<le> x"
  have "0 \<le> x * (1 - unit_roundoff)"
    using x unit_roundoff_bounds by (intro mult_nonneg_nonneg) simp_all
  with binary64_lower [OF x] show ?thesis by linarith
qed

lemma reserve_bound:
  fixes u cap level rr cost A R D F L :: real
  assumes u: "0 \<le> u" "u \<le> 1 / 4"
    and cap: "0 < cap"
    and level: "0 \<le> level" "level \<le> 1"
    and rr: "0 \<le> rr" "rr \<le> 1"
    and A: "A \<le> cap * level * (1 + u)"
    and R: "cap * rr * (1 - u) \<le> R"
    and D: "D \<le> (A - R) * (1 + u)"
    and cost: "cost \<le> D"
    and F: "0 \<le> F" "F \<le> cost / cap * (1 + u)"
    and L: "(level - F) - u * \<bar>level - F\<bar> \<le> L"
  shows "rr - 5 * u \<le> L"
proof -
  define q where "q = level * (1 + u) - rr * (1 - u)"
  have "A - R \<le> cap * q"
    using A R by (simp add: q_def algebra_simps)
  then have "(A - R) * (1 + u) \<le> cap * q * (1 + u)"
    using u by (intro mult_right_mono) simp_all
  with D cost have "cost \<le> cap * q * (1 + u)" by linarith
  then have "cost / cap \<le> q * (1 + u)"
    using cap by (simp add: field_simps)
  then have "cost / cap * (1 + u) \<le> q * (1 + u) * (1 + u)"
    using u by (intro mult_right_mono) simp_all
  with F have F_le: "F \<le> q * (1 + u) * (1 + u)" by linarith
  define k1 where "k1 = 3 * u + 3 * u * u + u * u * u"
  define k2 where "k2 = u - u * u - u * u * u"
  have expand: "q * (1 + u) * (1 + u) = level - rr + level * k1 - rr * k2"
    by (simp add: q_def k1_def k2_def algebra_simps)
  have uu: "u * u \<le> u * (1 / 4)"
    using u by (intro mult_left_mono) simp_all
  have uuu: "u * u * u \<le> u * u * (1 / 4)"
    using u by (intro mult_left_mono) simp_all
  have uu0: "0 \<le> u * u" "0 \<le> u * u * u"
    using u by simp_all
  have k1_nonneg: "0 \<le> k1" using u uu0 by (simp add: k1_def)
  have k1_le: "k1 \<le> 4 * u" using uu uuu u by (simp add: k1_def)
  have k2_nonneg: "0 \<le> k2" using uu uuu u by (simp add: k2_def)
  have "level * k1 \<le> 1 * k1"
    using level k1_nonneg by (intro mult_right_mono) simp_all
  then have t1: "level * k1 \<le> 4 * u" using k1_le by simp
  have t2: "0 \<le> rr * k2"
    using rr k2_nonneg by (intro mult_nonneg_nonneg)
  have "F \<le> level - rr + 4 * u"
    using F_le expand t1 t2 by linarith
  then have lo: "rr - 4 * u \<le> level - F" by linarith
  have hi: "level - F \<le> 1" using F level by linarith
  have "\<bar>level - F\<bar> \<le> 1"
    using lo hi rr u by (simp add: abs_le_iff)
  then have "u * \<bar>level - F\<bar> \<le> u * 1"
    using u by (intro mult_left_mono) simp_all
  with L lo show ?thesis by linarith
qed


lemma double_config_RoverConfig:
  "BATTERY_CAPACITY (double_config RoverConfig) = 5944751508129055 / 2 ^ 47"
  "ENERGY_RESERVE_RATIO (double_config RoverConfig) = 7205759403792794 / 2 ^ 55"
  "CRITICAL_ENERGY_THRESHOLD (double_config RoverConfig) = 7205759403792794 / 2 ^ 56"
  "TASK_POWER (double_config RoverConfig) ''drilling'' = Some 120"
proof -
  show "BATTERY_CAPACITY (double_config RoverConfig) = 5944751508129055 / 2 ^ 47"
    unfolding double_config_def RoverConfig_def
    by (simp only: rover_config.simps) (subst binary64_eval [where n = 47]; simp add: round_half_even_def Let_def)
  show "ENERGY_RESERVE_RATIO (double_config RoverConfig) = 7205759403792794 / 2 ^ 55"
    unfolding double_config_def RoverConfig_def
    by (simp only: rover_config.simps) (subst binary64_eval [where n = 55]; simp add: round_half_even_def Let_def)
  show "CRITICAL_ENERGY_THRESHOLD (double_config RoverConfig) = 7205759403792794 / 2 ^ 56"
    unfolding double_config_def RoverConfig_def
    by (simp only: rover_config.simps) (subst binary64_eval [where n = 56]; simp add: round_half_even_def Let_def)
  have "binary64 120 = 120"
    by (subst binary64_eval [where n = 46]; simp add: round_half_even_def Let_def)
  then show "TASK_POWER (double_config RoverConfig) ''drilling'' = Some 120"
    by (simp add: double_config_def RoverConfig_def)
qed

lemma boundary_task_cost: "energy_cost boundary_task = 4755801206503244 / 2 ^ 47"
proof -
  have d: "binary64 281.6 = 4953959590107546 / 2 ^ 44"
    by (subst binary64_eval [where n = 44]; simp add: round_half_even_def Let_def)
  have m: "binary64 (120 * (4953959590107546 / 2 ^ 44)) = 33792"
    by (subst binary64_eval [where n = 37]; simp add: round_half_even_def Let_def)
  have q: "binary64 (33792 / 1000) = 4755801206503244 / 2 ^ 47"
    by (subst binary64_eval [where n = 47]; simp add: round_half_even_def Let_def)
  have "calculate_task_energy_f64 (double_config RoverConfig) ''drilling'' (binary64 281.6) =
      Inr (4755801206503244 / 2 ^ 47)"
    unfolding calculate_task_energy_f64_def double_config_RoverConfig(4) d option.case m q ..
  then show ?thesis
    by (simp add: boundary_task_def cache_cost_f64_def Task_def)
qed

lemma boundary_task_run:
  "\<exists>sim'. execute_task_f64 (double_config RoverConfig)
            (MissionSimulator (store_of [boundary_task])) 0 = Inr (True, sim') \<and>
          current_battery_level sim' = 7205759403792792 / 2 ^ 55"
proof -
  define cap :: real where "cap = 5944751508129055 / 2 ^ 47"
  define rr :: real where "rr = 7205759403792794 / 2 ^ 55"
  define crit :: real where "crit = 7205759403792794 / 2 ^ 56"
  define cost :: real where "cost = 4755801206503244 / 2 ^ 47"
  define reserve :: real where "reserve = 4755801206503244 / 2 ^ 49"
  define frac :: real where "frac = 7205759403792794 / 2 ^ 53"
  define sim where "sim = MissionSimulator (store_of [boundary_task])"
  note cfg = double_config_RoverConfig(1-3) [folded cap_def rr_def crit_def]
  have c: "energy_cost (objects sim 0) = cost"
    by (simp add: sim_def MissionSimulator_def store_of_def boundary_task_cost cost_def)
  have l: "current_battery_level sim = 1"
    by (simp add: sim_def MissionSimulator_def)
  have total: "binary64 cap = cap"
    unfolding cap_def by (subst binary64_eval [where n = 47]; simp add: round_half_even_def Let_def)
  have res: "binary64 (cap * rr) = reserve"
    unfolding cap_def rr_def reserve_def
    by (subst binary64_eval [where n = 49]; simp add: round_half_even_def Let_def)
  have avail: "binary64 (cap - reserve) = cost"
    unfolding cap_def reserve_def cost_def
    by (subst binary64_eval [where n = 47]; simp add: round_half_even_def Let_def)
  have fraction: "binary64 (cost / cap) = frac"
    unfolding cap_def cost_def frac_def
    by (subst binary64_eval [where n = 53]; simp add: round_half_even_def Let_def)
  have after: "binary64 (1 - frac) = 7205759403792792 / 2 ^ 55"
    unfolding frac_def
    by (subst binary64_eval [where n = 55]; simp add: round_half_even_def Let_def)
  have cmp: "\<not> 1 \<le> crit" "0 \<le> cost" "cap \<noteq> 0"
    by (simp_all add: crit_def cost_def cap_def)
  have can: "can_execute_task_f64 (double_config RoverConfig) sim 0"
    by (simp add: can_execute_task_f64_def get_available_energy_f64_def is_critical_energy_def
        cfg c l total res avail cmp Let_def)
  have "\<exists>sim'. execute_task_f64 (double_config RoverConfig) sim 0 = Inr (True, sim') \<and>
          current_battery_level sim' = 7205759403792792 / 2 ^ 55"
    using can by (simp add: execute_task_f64_def cfg c l fraction after cmp Let_def)
  then show ?thesis unfolding sim_def .
qed

text \<open>
  Claim C10, counterexample. In the arithmetic of the floats, a drilling task of 281.6
  hours costs 33.792 kWh, which is exactly the energy available at a full battery, so the
  task runs; the level after the deduction is 0.19999999999999996
  (7205759403792792 / 2^55), below the reserve ratio 0.2 as the floats hold it
  (7205759403792794 / 2^55).
\<close>

theorem execute_task_below_reserve_by_rounding:
  "\<exists>sim'. execute_task_f64 (double_config RoverConfig)
            (MissionSimulator (store_of [boundary_task])) 0 = Inr (True, sim') \<and>
          0 < energy_cost (objects (MissionSimulator (store_of [boundary_task])) 0) \<and>
          current_battery_level sim' = 7205759403792792 / 2 ^ 55 \<and>
          ENERGY_RESERVE_RATIO (double_config RoverConfig) = 7205759403792794 / 2 ^ 55 \<and>
          current_battery_level sim' < ENERGY_RESERVE_RATIO (double_config RoverConfig)"
proof -
  from boundary_task_run obtain sim' where
    ran: "execute_task_f64 (double_config RoverConfig)
            (MissionSimulator (store_of [boundary_task])) 0 = Inr (True, sim')"
    and lvl: "current_battery_level sim' = 7205759403792792 / 2 ^ 55"
    by blast
  have "0 < energy_cost (objects (MissionSimulator (store_of [boundary_task])) 0)"
    by (simp add: MissionSimulator_def store_of_def boundary_task_cost)
  moreover have "current_battery_level sim' < ENERGY_RESERVE_RATIO (double_config RoverConfig)"
    by (simp add: lvl double_config_RoverConfig)
  ultimately show ?thesis
    using ran lvl double_config_RoverConfig(2) by blast
qed

text \<open>
  Claim C10, amended. For every task with a strictly positive cached energy cost that the
  execution engine marks completed, from a battery level and with a reserve ratio between
  0 and 1 and a positive battery capacity, the battery level after the deduction, as the
  floats compute it and as it is stored and logged, is at least the configured reserve
  ratio less 5 / 2^53: completing a task can take from the reserve only what the rounding
  of five operations can lose.
\<close>

theorem execute_task_keeps_reserve_up_to_rounding:
  assumes cap: "0 < BATTERY_CAPACITY cfg"
    and cost: "0 < energy_cost (objects sim r)"
    and level: "0 \<le> current_battery_level sim" "current_battery_level sim \<le> 1"
    and rr: "0 \<le> ENERGY_RESERVE_RATIO cfg" "ENERGY_RESERVE_RATIO cfg \<le> 1"
    and ran: "execute_task_f64 cfg sim r = Inr (True, sim')"
  shows "can_execute_task_f64 cfg sim r \<and>
         completed (objects sim' r) \<and>
         current_battery_level sim' =
           binary64 (current_battery_level sim -
                     binary64 (energy_cost (objects sim r) / BATTERY_CAPACITY cfg)) \<and>
         ENERGY_RESERVE_RATIO cfg - 5 / 2 ^ 53 \<le> current_battery_level sim' \<and>
         log_battery_level_after (last (mission_log sim')) = current_battery_level sim'"
proof -
  let ?cap = "BATTERY_CAPACITY cfg"
  let ?lvl = "current_battery_level sim"
  let ?rr = "ENERGY_RESERVE_RATIO cfg"
  let ?cost = "energy_cost (objects sim r)"
  define A where "A = binary64 (?cap * ?lvl)"
  define R where "R = binary64 (?cap * ?rr)"
  define D where "D = binary64 (A - R)"
  define F where "F = binary64 (?cost / ?cap)"
  define L where "L = binary64 (?lvl - F)"
  have can: "can_execute_task_f64 cfg sim r"
    using ran by (auto simp: execute_task_f64_def split: if_splits)
  then have "?cost \<le> max 0 D"
    by (auto simp: can_execute_task_f64_def get_available_energy_f64_def A_def R_def D_def Let_def
          split: if_splits)
  with cost have D_pos: "0 < D" and cost_le: "?cost \<le> D"
    by (simp_all add: max_def split: if_splits)
  have diff_pos: "0 < A - R"
    using D_pos unfolding D_def by (rule binary64_pos_imp)
  have A_le: "A \<le> ?cap * ?lvl * (1 + unit_roundoff)"
    unfolding A_def using cap level by (intro binary64_upper) simp
  have R_ge: "?cap * ?rr * (1 - unit_roundoff) \<le> R"
    unfolding R_def using cap rr by (intro binary64_lower) simp
  have D_le: "D \<le> (A - R) * (1 + unit_roundoff)"
    unfolding D_def using diff_pos by (intro binary64_upper) simp
  have frac_nonneg: "0 \<le> ?cost / ?cap"
    using cost cap by simp
  have F_nonneg: "0 \<le> F"
    unfolding F_def by (rule binary64_nonneg [OF frac_nonneg])
  have F_le: "F \<le> ?cost / ?cap * (1 + unit_roundoff)"
    unfolding F_def by (rule binary64_upper [OF frac_nonneg])
  have L_ge: "(?lvl - F) - unit_roundoff * \<bar>?lvl - F\<bar> \<le> L"
    unfolding L_def by (rule binary64_error_abs)
  have "?rr - 5 * unit_roundoff \<le> L"
    by (rule reserve_bound [OF unit_roundoff_bounds(1,2) cap level rr A_le R_ge D_le cost_le
          F_nonneg F_le L_ge])
  then have bound: "?rr - 5 / 2 ^ 53 \<le> L"
    by (simp add: unit_roundoff_def)
  have lvl': "current_battery_level sim' = L"
    using ran can cap by (auto simp: execute_task_f64_def L_def F_def Let_def split: if_splits)
  from ran can cap show ?thesis
    using bound lvl' by (auto simp: execute_task_f64_def L_def F_def Let_def split: if_splits)
qed


theorem execute_task_keeps_reserve_up_to_rounding_witness:
  "\<exists>sim'. execute_task_f64 (double_config RoverConfig)
            (MissionSimulator (store_of [boundary_task])) 0 = Inr (True, sim') \<and>
          ENERGY_RESERVE_RATIO (double_config RoverConfig) - 5 / 2 ^ 53 \<le> current_battery_level sim' \<and>
          completed (objects sim' 0)"
proof -
  let ?sim = "MissionSimulator (store_of [boundary_task])"
  from boundary_task_run obtain sim' where
    ran: "execute_task_f64 (double_config RoverConfig) ?sim 0 = Inr (True, sim')"
    by blast
  have cap: "0 < BATTERY_CAPACITY (double_config RoverConfig)"
    by (simp add: double_config_RoverConfig)
  have cost: "0 < energy_cost (objects ?sim 0)"
    by (simp add: MissionSimulator_def store_of_def boundary_task_cost)
  have level: "0 \<le> current_battery_level ?sim" "current_battery_level ?sim \<le> 1"
    by (simp_all add: MissionSimulator_def)
  have rr: "0 \<le> ENERGY_RESERVE_RATIO (double_config RoverConfig)"
    "ENERGY_RESERVE_RATIO (double_config RoverConfig) \<le> 1"
    by (simp_all add: double_config_RoverConfig)
  from execute_task_keeps_reserve_up_to_rounding [OF cap cost level rr ran] ran show ?thesis by blast
qed


subsection \<open>Effect size\<close>

text \<open>
  Claim C9. For every pair of non-empty sample lists the Cohen's d computation returns
  (mean1 - mean2) / sqrt ((var1 + var2) / 2), and 0 when that pooled standard deviation is
  0; in particular it returns exactly 0 when the two lists are the same.
\<close>

theorem cohens_d_value:
  assumes "g1 \<noteq> []" and "g2 \<noteq> []"
  shows "calculate_cohens_d g1 g2 =
           Inr (if pooled_std_of g1 g2 = 0 then 0
                else (mean_of g1 - mean_of g2) / pooled_std_of g1 g2) \<and>
         (g1 = g2 \<longrightarrow> calculate_cohens_d g1 g2 = Inr 0)"
proof -
  have "0 < length g1" and "0 < length g2" using assms by simp_all
  then have l1: "length g1 = 1 \<or> 2 \<le> length g1" and l2: "length g2 = 1 \<or> 2 \<le> length g2"
    by arith+
  have eq: "calculate_cohens_d g1 g2 =
           Inr (if pooled_std_of g1 g2 = 0 then 0
                else (mean_of g1 - mean_of g2) / pooled_std_of g1 g2)"
    using assms l1 l2
    by (auto simp: calculate_cohens_d_def statistics_mean_def statistics_variance_def
          pooled_std_of_def variance_of_def mean_of_def Let_def)
  then show ?thesis by auto
qed

theorem cohens_d_value_witness:
  "calculate_cohens_d [1, 2, 3] [2, 3, 4] = Inr (- 1) \<and>
   calculate_cohens_d [1, 2, 3] [1, 2, 3] = Inr 0 \<and>
   calculate_cohens_d [5] [5, 5] = Inr 0"
  using cohens_d_value [of "[1, 2, 3]" "[2, 3, 4]"] cohens_d_value [of "[1, 2, 3]" "[1, 2, 3]"]
        cohens_d_value [of "[5]" "[5, 5]"]
  by (simp add: pooled_std_of_def variance_of_def mean_of_def power2_eq_square)

subsection \<open>Feasibility in the benchmark harness\<close>

text \<open>
  Claim C3, counterexample. At a battery level of 0.15 the harness completes a task of
  1 kWh, while the execution engine's rule, on the same capacity and reserve ratio, leaves
  no available energy at that level and so finds the task infeasible.
\<close>

theorem harness_feasibility_differs_from_engine:
  "result_completed_tasks (simulate_task_execution (SimpleValidator 1000)
      [\<lparr> id' = ''T001'', type_index = 1, duration = 20, urgency' = 5, reward' = 50, power = 50, energy = 1 \<rparr>] 0.15)
    = [\<lparr> id' = ''T001'', type_index = 1, duration = 20, urgency' = 5, reward' = 50, power = 50, energy = 1 \<rparr>] \<and>
   \<not> (1 \<le> get_available_energy RoverConfig 0.15) \<and>
   battery_capacity (SimpleValidator 1000) = BATTERY_CAPACITY RoverConfig \<and>
   reserve_ratio (SimpleValidator 1000) = ENERGY_RESERVE_RATIO RoverConfig"
  by (simp add: simulate_task_execution_def SimpleValidator_def get_available_energy_def RoverConfig_simps Let_def)

lemma execution_loop_append:
  "execution_loop (xs @ ys) st = execution_loop ys (execution_loop xs st)"
  by (induction xs st rule: execution_loop.induct) auto

lemma execution_loop_left_over:
  "execution_loop xs (u, c, e, r) = (u', c', e', r') \<Longrightarrow>
     u' = u + sum_list (map energy c) - sum_list (map energy c')"
  by (induction xs "(u, c, e, r)" arbitrary: u c e r rule: execution_loop.induct)
     (auto split: if_splits)

lemma simulate_task_execution_loop:
  "simulate_task_execution sv xs lvl =
     (case execution_loop xs (usable_energy_at sv lvl, [], terrain_energy sv, 0) of
        (left_over, done_tasks, energy_used, total_reward) \<Rightarrow>
          \<lparr> result_completed_tasks = done_tasks,
            result_total_energy = energy_used,
            result_total_reward = total_reward \<rparr>)"
  by (simp add: simulate_task_execution_def usable_energy_at_def Let_def)

text \<open>
  Claim C3, amended. The harness decides each task's feasibility by its own rule: the
  usable energy is (battery capacity * level - terrain energy) less its reserve share,
  floored at zero, and a task is completed iff its energy cost is at most that usable
  energy less the energy of the tasks completed before it.
\<close>

theorem harness_feasibility_rule:
  "result_completed_tasks (simulate_task_execution sv (pre @ [t]) lvl) =
     result_completed_tasks (simulate_task_execution sv pre lvl) @
       (if energy t \<le> usable_energy_at sv lvl -
             sum_list (map energy (result_completed_tasks (simulate_task_execution sv pre lvl)))
        then [t] else []) \<and>
   usable_energy_at sv lvl =
     max 0 ((battery_capacity sv * lvl - terrain_energy sv) -
            (battery_capacity sv * lvl - terrain_energy sv) * reserve_ratio sv)"
proof -
  obtain u' c' e' r' where run:
    "execution_loop pre (usable_energy_at sv lvl, [], terrain_energy sv, 0) = (u', c', e', r')"
    by (cases "execution_loop pre (usable_energy_at sv lvl, [], terrain_energy sv, 0)") auto
  have left: "u' = usable_energy_at sv lvl - sum_list (map energy c')"
    using execution_loop_left_over [OF run] by simp
  have "result_completed_tasks (simulate_task_execution sv (pre @ [t]) lvl) =
     result_completed_tasks (simulate_task_execution sv pre lvl) @
       (if energy t \<le> usable_energy_at sv lvl -
             sum_list (map energy (result_completed_tasks (simulate_task_execution sv pre lvl)))
        then [t] else [])"
    using run left
    by (simp add: simulate_task_execution_loop execution_loop_append)
  then show ?thesis
    by (simp add: usable_energy_at_def Let_def)
qed

theorem harness_feasibility_rule_witness:
  "result_completed_tasks (simulate_task_execution (SimpleValidator 1000)
      ([] @ [\<lparr> id' = ''T001'', type_index = 1, duration = 20, urgency' = 5, reward' = 50,
               power = 50, energy = 1 \<rparr>]) 0.15) =
     [\<lparr> id' = ''T001'', type_index = 1, duration = 20, urgency' = 5, reward' = 50,
        power = 50, energy = 1 \<rparr>] \<and>
   usable_energy_at (SimpleValidator 1000) 0.15 = 5.02"
  using harness_feasibility_rule [of "SimpleValidator 1000" "[]"
      "\<lparr> id' = ''T001'', type_index = 1, duration = 20, urgency' = 5, reward' = 50,
         power = 50, energy = 1 \<rparr>" "0.15"]
  by (simp add: simulate_task_execution_def SimpleValidator_def Let_def)

subsection \<open>Generated scenarios are over-subscribed\<close>

lemma power_map_known:
  assumes "1 \<le> ti" and "ti \<le> 6"
  shows "\<exists>pw. power_map (SimpleValidator n) ti = Some pw \<and> 25 \<le> pw"
proof -
  have "ti = 1 \<or> ti = 2 \<or> ti = 3 \<or> ti = 4 \<or> ti = 5 \<or> ti = 6"
    using assms by arith
  then show ?thesis
    by (auto simp: SimpleValidator_def)
qed

lemma synthesize_tasks_total:
  assumes "list_all task_draw_ok draws"
  shows "\<exists>built total.
           synthesize_tasks (SimpleValidator n) i draws (b0, t0) = Inr (built, total) \<and>
           length built = length b0 + length draws \<and>
           sum_list (map energy built) = sum_list (map energy b0) + (total - t0) \<and>
           0.025 * real (length draws) \<le> total - t0"
  using assms
proof (induction draws arbitrary: i b0 t0)
  case Nil
  then show ?case by simp
next
  case (Cons dr rest)
  from Cons.prems have ok: "task_draw_ok dr" and rest_ok: "list_all task_draw_ok rest"
    by simp_all
  from ok obtain pw where pw: "power_map (SimpleValidator n) (draw_type_index dr) = Some pw"
    and big: "25 \<le> pw"
    using power_map_known [of "draw_type_index dr" n] by (auto simp: task_draw_ok_def)
  from ok have dur: "0 \<le> draw_duration dr"
    by (simp add: task_draw_ok_def unit_draw_def)
  define en where "en = pw * (1 + draw_duration dr * 6) / 1000"
  have "25 * 1 \<le> pw * (1 + draw_duration dr * 6)"
    using big dur by (intro mult_mono) simp_all
  then have en_big: "0.025 \<le> en"
    by (simp add: en_def)
  define t where "t = \<lparr> id' = task_label (i + 1), type_index = draw_type_index dr,
      duration = 1 + draw_duration dr * 6, urgency' = 1 + draw_urgency dr * 9,
      reward' = 10 + draw_reward dr * 90, power = pw, energy = en \<rparr>"
  have step: "synthesize_tasks (SimpleValidator n) i (dr # rest) (b0, t0) =
      synthesize_tasks (SimpleValidator n) (i + 1) rest (b0 @ [t], t0 + en)"
    using pw by (simp add: Let_def t_def en_def)
  from Cons.IH [OF rest_ok, of "i + 1" "b0 @ [t]" "t0 + en"]
  obtain built total where
    run: "synthesize_tasks (SimpleValidator n) (i + 1) rest (b0 @ [t], t0 + en) = Inr (built, total)"
    and len: "length built = length (b0 @ [t]) + length rest"
    and sum: "sum_list (map energy built) = sum_list (map energy (b0 @ [t])) + (total - (t0 + en))"
    and lo: "0.025 * real (length rest) \<le> total - (t0 + en)"
    by blast
  have "energy t = en" by (simp add: t_def)
  then have "sum_list (map energy built) = sum_list (map energy b0) + (total - t0)"
    using sum by simp
  moreover have "0.025 * real (length (dr # rest)) \<le> total - t0"
  proof -
    have "0.025 * real (length (dr # rest)) = 0.025 + 0.025 * real (length rest)"
      by (simp add: algebra_simps)
    then show ?thesis using lo en_big by linarith
  qed
  moreover have "length built = length b0 + length (dr # rest)"
    using len by simp
  ultimately show ?case
    using step run by simp
qed

lemma usable_energy_positive:
  assumes "unit_draw u"
  shows "0 < usable_energy_at (SimpleValidator n) (0.05 + u * 0.15)"
proof -
  define x where "x = (42.24 * (0.05 + u * 0.15) - 0.061) - (42.24 * (0.05 + u * 0.15) - 0.061) * 0.20"
  have "0 \<le> u" using assms by (simp add: unit_draw_def)
  then have pos: "0 < x"
    unfolding x_def by (simp add: algebra_simps)
  have sel: "battery_capacity (SimpleValidator n) = 42.24"
    "terrain_energy (SimpleValidator n) = 0.061" "reserve_ratio (SimpleValidator n) = 0.20"
    by (simp_all add: SimpleValidator_def)
  have "usable_energy_at (SimpleValidator n) (0.05 + u * 0.15) = max 0 x"
    unfolding usable_energy_at_def Let_def sel x_def by (rule refl)
  then show ?thesis
    using pos by (simp only: less_max_iff_disj) simp
qed

lemma sum_list_scaled_energy:
  "sum_list (map energy (map (\<lambda>t. t\<lparr> energy := energy t * k, duration := duration t * k \<rparr>) ts)) =
     sum_list (map energy ts) * k"
  by (induction ts) (simp_all add: algebra_simps)

text \<open>
  Claim C7. For every scenario the generator produces (whatever the draws, within the
  ranges of the random source), the generator returns a scenario and, after the rescaling
  step, the total energy of its tasks is strictly greater than the usable energy at the
  scenario's energy level.
\<close>

theorem generated_scenario_exceeds_usable_energy:
  assumes "draws_ok u draws"
  shows "\<exists>scn. generate_random_scenario (SimpleValidator n) u draws = Inr scn \<and>
           scenario_energy_level scn = 0.05 + u * 0.15 \<and>
           length (scenario_tasks scn) = length draws \<and>
           usable_energy_at (SimpleValidator n) (scenario_energy_level scn) <
             sum_list (map energy (scenario_tasks scn))"
proof -
  let ?sv = "SimpleValidator n"
  let ?lvl = "0.05 + u * 0.15"
  from assms have u: "unit_draw u" and len: "12 \<le> length draws"
    and ok: "list_all task_draw_ok draws"
    by (simp_all add: draws_ok_def)
  from synthesize_tasks_total [OF ok, of n 0 "[]" 0]
  obtain built total where
    run: "synthesize_tasks ?sv 0 draws ([], 0) = Inr (built, total)"
    and blen: "length built = length draws"
    and sum: "sum_list (map energy built) = total"
    and lo: "0.025 * real (length draws) \<le> total"
    by auto
  have "0.025 * 12 \<le> 0.025 * real (length draws)"
    using len by simp
  then have total_big: "0.3 \<le> total" using lo by simp
  have pos: "0 < usable_energy_at ?sv ?lvl"
    by (rule usable_energy_positive [OF u])
  define sf where "sf = (usable_energy_at ?sv ?lvl * 3) / max total 0.1"
  have gen: "generate_random_scenario ?sv u draws =
      (if total \<le> usable_energy_at ?sv ?lvl * 2 then
         Inr \<lparr> scenario_energy_level = ?lvl,
               scenario_tasks = map (\<lambda>t. t\<lparr> energy := energy t * sf,
                                      duration := duration t * sf \<rparr>) built \<rparr>
       else Inr \<lparr> scenario_energy_level = ?lvl, scenario_tasks = built \<rparr>)"
    using run by (simp add: generate_random_scenario_def usable_energy_at_def sf_def Let_def)
  show ?thesis
  proof (cases "total \<le> usable_energy_at ?sv ?lvl * 2")
    case True
    have mx: "max total 0.1 = total" using total_big by simp
    have "total * sf = usable_energy_at ?sv ?lvl * 3"
      using total_big unfolding sf_def mx by simp
    then have "sum_list (map energy (map (\<lambda>t. t\<lparr> energy := energy t * sf,
                                      duration := duration t * sf \<rparr>) built)) =
        usable_energy_at ?sv ?lvl * 3"
      using sum by (simp only: sum_list_scaled_energy)
    then show ?thesis
      using True gen pos blen by simp
  next
    case False
    then show ?thesis
      using gen pos sum blen by simp
  qed
qed

theorem generated_scenario_exceeds_usable_energy_witness:
  "\<exists>scn. generate_random_scenario (SimpleValidator 1000) 0.5
            (replicate 12 \<lparr> draw_type_index = 3, draw_duration = 0.5, draw_urgency = 0.5,
                             draw_reward = 0.5 \<rparr>) = Inr scn \<and>
         scenario_energy_level scn = 0.125 \<and>
         length (scenario_tasks scn) = 12 \<and>
         usable_energy_at (SimpleValidator 1000) (scenario_energy_level scn) <
           sum_list (map energy (scenario_tasks scn))"
proof -
  have "draws_ok 0.5 (replicate 12 \<lparr> draw_type_index = 3, draw_duration = 0.5,
          draw_urgency = 0.5, draw_reward = 0.5 \<rparr>)"
    by (simp add: draws_ok_def task_draw_ok_def unit_draw_def list_all_iff)
  from generated_scenario_exceeds_usable_energy [OF this, of 1000]
  show ?thesis by simp
qed

subsection \<open>Priority orderings\<close>

text \<open>
  Claim C5, counterexample. The mission simulator orders the drilling task A (3 h,
  urgency 5, reward 10, 0.36 kWh) before the communication task B (0.1 h, urgency 5,
  reward 9, 0.0025 kWh), although the five-term cost of B is the smaller one: the
  simulator's cost has three terms only.
\<close>

theorem simulator_priority_is_three_term:
  "(\<exists>sim'. prioritize_tasks RoverConfig (MissionSimulator (store_of [task_A, task_B])) [0, 1] = Inr ([0, 1], sim')) \<and>
   calculate_task_energy RoverConfig ''drilling'' 3 = Inr 0.36 \<and>
   calculate_task_energy RoverConfig ''communication'' 0.1 = Inr 0.0025 \<and>
   weighted_cost 0.0025 5 9 < weighted_cost 0.36 5 10"
  by (simp add: prioritize_tasks_def calculate_task_priority_def calculate_task_energy_def
      RoverConfig_def MissionSimulator_def store_of_def task_A_def task_B_def Task_def Let_def
      lambda1_def lambda2_def lambda3_def weighted_cost_def tau_def)


lemma insort_key_decorated:
  "insort_key fst (f x, x) (map (\<lambda>y. (f y, y)) ys) = map (\<lambda>y. (f y, y)) (insort_key f x ys)"
  by (induction ys) auto

lemma sort_key_decorated:
  "sort_key fst (map (\<lambda>y. (f y, y)) xs) = map (\<lambda>y. (f y, y)) (sort_key f xs)"
  by (induction xs) (simp_all add: insort_key_decorated)

lemma decorate_sort_undecorate:
  "map snd (sort_key fst (map (\<lambda>y. (f y, y)) xs)) = sort_key f xs"
  by (simp add: sort_key_decorated comp_def)

lemma task_priority_weighted_cost: "task_priority t = benchmark_cost t"
  by (simp add: task_priority_def benchmark_cost_def weighted_cost_def tau_def Let_def)

lemma our_prioritization_scheduler_sort:
  "our_prioritization_scheduler ts = sort_key benchmark_cost ts"
proof -
  have "(\<lambda>t. (task_priority t, t)) = (\<lambda>t. (benchmark_cost t, t))"
    by (simp add: task_priority_weighted_cost)
  then show ?thesis
    by (simp add: our_prioritization_scheduler_def Let_def decorate_sort_undecorate)
qed

lemma cache_cost_fields:
  "task_type (cache_cost cfg t) = task_type t"
  "duration_hours (cache_cost cfg t) = duration_hours t"
  "urgency (cache_cost cfg t) = urgency t"
  "reward (cache_cost cfg t) = reward t"
  by (simp_all add: cache_cost_def split: option.splits)

lemma cache_cost_idem: "cache_cost cfg (cache_cost cfg t) = cache_cost cfg t"
  by (simp add: cache_cost_def split: option.splits)

lemma calculate_task_priority_result:
  assumes "calculate_task_priority cfg sim r = Inr (k, sim')"
  shows "sim' = sim\<lparr>objects := (objects sim)(r := cache_cost cfg (objects sim r))\<rparr> \<and>
         k = mission_cost (cache_cost cfg (objects sim r)) \<and>
         TASK_POWER cfg (task_type (objects sim r)) \<noteq> None"
  using assms
  by (auto simp: calculate_task_priority_def calculate_task_energy_def cache_cost_def
        mission_cost_def three_term_cost_def lambda1_def lambda2_def lambda3_def Let_def
        split: option.splits)

lemma priority_keys_result:
  assumes "priority_keys cfg sim rs = Inr (ks, sim')"
  shows "sim' = sim\<lparr>objects := (\<lambda>x. if x \<in> set rs then cache_cost cfg (objects sim x)
                                  else objects sim x)\<rparr> \<and>
         ks = map (\<lambda>r. mission_cost (cache_cost cfg (objects sim r))) rs \<and>
         (\<forall>r \<in> set rs. TASK_POWER cfg (task_type (objects sim r)) \<noteq> None)"
  using assms
proof (induction rs arbitrary: sim ks sim')
  case Nil
  then show ?case by simp
next
  case (Cons r rs)
  from Cons.prems obtain k sim1 where
    first: "calculate_task_priority cfg sim r = Inr (k, sim1)"
    by (auto split: sum.splits)
  with Cons.prems obtain ks1 where
    rest: "priority_keys cfg sim1 rs = Inr (ks1, sim')" and ks: "ks = k # ks1"
    by (auto split: sum.splits)
  note one = calculate_task_priority_result [OF first]
  note IH = Cons.IH [OF rest]
  from one have sim1: "sim1 = sim\<lparr>objects := (objects sim)(r := cache_cost cfg (objects sim r))\<rparr>"
    and k: "k = mission_cost (cache_cost cfg (objects sim r))"
    and known: "TASK_POWER cfg (task_type (objects sim r)) \<noteq> None"
    by blast+
  have obj1: "objects sim1 x = (if x = r then cache_cost cfg (objects sim r) else objects sim x)" for x
    by (simp add: sim1)
  have cc: "cache_cost cfg (objects sim1 x) = cache_cost cfg (objects sim x)" for x
    by (simp add: obj1 cache_cost_idem)
  have ty: "task_type (objects sim1 x) = task_type (objects sim x)" for x
    by (simp add: obj1 cache_cost_fields)
  from IH have sim': "sim' = sim1\<lparr>objects := (\<lambda>x. if x \<in> set rs then cache_cost cfg (objects sim1 x)
                                  else objects sim1 x)\<rparr>"
    and ks1: "ks1 = map (\<lambda>r. mission_cost (cache_cost cfg (objects sim1 r))) rs"
    and known1: "\<forall>x \<in> set rs. TASK_POWER cfg (task_type (objects sim1 x)) \<noteq> None"
    by blast+
  have "sim' = sim\<lparr>objects := (\<lambda>x. if x \<in> set (r # rs) then cache_cost cfg (objects sim x)
                                  else objects sim x)\<rparr>"
  proof -
    have "(\<lambda>x. if x \<in> set rs then cache_cost cfg (objects sim1 x) else objects sim1 x) =
          (\<lambda>x. if x \<in> set (r # rs) then cache_cost cfg (objects sim x) else objects sim x)"
      by (rule ext) (simp add: obj1 cache_cost_idem)
    then show ?thesis
      unfolding sim' by (simp add: sim1)
  qed
  moreover have "ks = map (\<lambda>r. mission_cost (cache_cost cfg (objects sim r))) (r # rs)"
    unfolding ks ks1 k by (simp only: cc list.map)
  moreover have "\<forall>x \<in> set (r # rs). TASK_POWER cfg (task_type (objects sim x)) \<noteq> None"
    using known known1 by (simp add: ty)
  ultimately show ?case by blast
qed

lemma prioritize_tasks_result:
  assumes "prioritize_tasks cfg sim refs = Inr (order, sim')"
  shows "order = sort_key (\<lambda>r. mission_cost (objects sim' r)) refs \<and>
         (\<forall>r \<in> set refs. objects sim' r = cache_cost cfg (objects sim r) \<and>
             TASK_POWER cfg (task_type (objects sim r)) \<noteq> None)"
proof -
  from assms obtain ks where
    keys: "priority_keys cfg sim refs = Inr (ks, sim')"
    and order: "order = map snd (sort_key fst (zip ks refs))"
    by (auto simp: prioritize_tasks_def split: sum.splits)
  note res = priority_keys_result [OF keys]
  have objs: "objects sim' r = cache_cost cfg (objects sim r)" if "r \<in> set refs" for r
    using res that by simp
  have "ks = map (\<lambda>r. mission_cost (objects sim' r)) refs"
    using res objs by simp
  then have "zip ks refs = map (\<lambda>r. (mission_cost (objects sim' r), r)) refs"
    by (simp add: zip_map1 zip_same_conv_map)
  then have "order = sort_key (\<lambda>r. mission_cost (objects sim' r)) refs"
    using order by (simp only: decorate_sort_undecorate)
  then show ?thesis using res objs by simp
qed

text \<open>
  Claim C5, amended. The harness's policy (\<^verbatim>\<open>our_prioritization_scheduler\<close>) orders any
  task list ascending by the five-term cost
  1.0 * energy + 0.5 * (1 / max (urgency, 0.1)) + (-2.0) * reward
  + (-0.5) * (reward / max (energy, 0.001)) + tau (urgency), ties in input order. The
  simulator's \<^verbatim>\<open>prioritize_tasks\<close>, when no task type is unknown, orders ascending by the
  three-term cost 1.0 * energy + 0.5 * (1 / max (urgency, 0.1)) + (-2.0) * reward over the
  cached energy costs, ties in input order.
\<close>

theorem priority_orderings:
  "(our_prioritization_scheduler ts = sort_key benchmark_cost ts \<and>
    sorted (map benchmark_cost (our_prioritization_scheduler ts)) \<and>
    mset (our_prioritization_scheduler ts) = mset ts \<and>
    (\<forall>k. filter (\<lambda>t. benchmark_cost t = k) (our_prioritization_scheduler ts) =
         filter (\<lambda>t. benchmark_cost t = k) ts)) \<and>
   (prioritize_tasks cfg sim refs = Inr (order, sim') \<longrightarrow>
      order = sort_key (\<lambda>r. mission_cost (objects sim' r)) refs \<and>
      sorted (map (\<lambda>r. mission_cost (objects sim' r)) order) \<and>
      mset order = mset refs \<and>
      (\<forall>k. filter (\<lambda>r. mission_cost (objects sim' r) = k) order =
           filter (\<lambda>r. mission_cost (objects sim' r) = k) refs) \<and>
      (\<forall>r \<in> set refs. objects sim' r = cache_cost cfg (objects sim r)))"
  using prioritize_tasks_result [of cfg sim refs order sim']
  by (auto simp: our_prioritization_scheduler_sort sort_key_stable)

theorem priority_orderings_witness:
  "our_prioritization_scheduler [sv_task_A, sv_task_B] = [sv_task_B, sv_task_A] \<and>
   (\<exists>sim'. prioritize_tasks RoverConfig (MissionSimulator (store_of [task_A, task_B])) [0, 1] =
             Inr ([0, 1], sim') \<and>
           [0, 1] = sort_key (\<lambda>r. mission_cost (objects sim' r)) [0, 1] \<and>
           objects sim' 0 = cache_cost RoverConfig task_A)"
proof -
  let ?sim = "MissionSimulator (store_of [task_A, task_B])"
  have "\<exists>sim'. prioritize_tasks RoverConfig ?sim [0, 1] = Inr ([0, 1], sim')"
    by (simp add: prioritize_tasks_def calculate_task_priority_def calculate_task_energy_def
        RoverConfig_def MissionSimulator_def store_of_def task_A_def task_B_def Task_def Let_def
        lambda1_def lambda2_def lambda3_def)
  then obtain sim' where run: "prioritize_tasks RoverConfig ?sim [0, 1] = Inr ([0, 1], sim')"
    by blast
  note w = priority_orderings [of "[sv_task_A, sv_task_B]" RoverConfig ?sim "[0, 1]" "[0, 1]" sim']
  have cmp: "benchmark_cost sv_task_B < benchmark_cost sv_task_A"
    by (simp add: benchmark_cost_def weighted_cost_def tau_def sv_task_A_def sv_task_B_def)
  have "our_prioritization_scheduler [sv_task_A, sv_task_B] = sort_key benchmark_cost [sv_task_A, sv_task_B]"
    using w by blast
  then have first: "our_prioritization_scheduler [sv_task_A, sv_task_B] = [sv_task_B, sv_task_A]"
    using cmp by simp
  note w2 = w [THEN conjunct2, THEN mp, OF run]
  have sorted_refs: "[0, 1] = sort_key (\<lambda>r. mission_cost (objects sim' r)) [0, 1]"
    by (rule w2 [THEN conjunct1])
  have "\<forall>r \<in> set [0, 1::nat]. objects sim' r = cache_cost RoverConfig (objects ?sim r)"
    by (rule w2 [THEN conjunct2, THEN conjunct2, THEN conjunct2, THEN conjunct2])
  then have "objects sim' 0 = cache_cost RoverConfig task_A"
    by (simp add: MissionSimulator_def store_of_def)
  then show ?thesis
    using first run sorted_refs by blast
qed

subsection \<open>Halting at the critical energy level\<close>




lemma fold_defer_task:
  "current_battery_level (fold defer_task rs s) = current_battery_level s \<and>
   completed_tasks (fold defer_task rs s) = completed_tasks s \<and>
   mission_log (fold defer_task rs s) = mission_log s \<and>
   deferred_tasks (fold defer_task rs s) = deferred_tasks s @ rs \<and>
   (\<forall>x. objects (fold defer_task rs s) x =
          (if x \<in> set rs then (objects s x)\<lparr>deferred := True\<rparr> else objects s x))"
proof (induction rs arbitrary: s)
  case Nil
  then show ?case by simp
next
  case (Cons r rs)
  show ?case
    by (simp add: Cons.IH) (auto simp: defer_task_def)
qed


lemma defer_remaining_filter:
  "defer_remaining sim P = fold defer_task (filter (unflagged sim) P) sim"
proof -
  have "unflagged sim = (\<lambda>t. \<not> completed (objects sim t) \<and> \<not> deferred (objects sim t))"
    by (rule ext) (simp add: unflagged_def)
  then show ?thesis
    by (simp add: defer_remaining_def Let_def)
qed












subsection \<open>Completed tasks and available energy\<close>

lemma greedy_tasks_costs:
  "energy_cost (store_of greedy_tasks 0) = 12"
  "energy_cost (store_of greedy_tasks 1) = 5"
  "energy_cost (store_of greedy_tasks 2) = 5"
  "energy_cost (store_of greedy_tasks (Suc 0)) = 5"
  by (simp_all add: greedy_tasks_def store_of_def cache_cost_def RoverConfig_def Task_def)

text \<open>
  Claim C2, counterexample. For the fixed order of tasks costing 12, 5 and 5 kWh the
  execution engine completes two tasks from a battery level of 0.45 and one task from
  0.5: with more energy the first task fits and leaves too little for the other two. The
  harness does the same on tasks of 6, 2.5 and 2.5 kWh at the levels 0.15 and 0.2. Both
  levels are at or above the critical threshold of 0.10.
\<close>

theorem greedy_completed_count_not_monotone:
  "(0.10::real) \<le> 0.45 \<and> (0.45::real) \<le> 0.5 \<and>
   (\<exists>f f'. mission_loop RoverConfig [0, 1, 2]
              ((MissionSimulator (store_of greedy_tasks))\<lparr>current_battery_level := 0.45\<rparr>) [0, 1, 2] = Inr f \<and>
            mission_loop RoverConfig [0, 1, 2]
              ((MissionSimulator (store_of greedy_tasks))\<lparr>current_battery_level := 0.5\<rparr>) [0, 1, 2] = Inr f' \<and>
            length (completed_tasks f) = 2 \<and> length (completed_tasks f') = 1) \<and>
   length (result_completed_tasks (simulate_task_execution (SimpleValidator 1000) greedy_sv_tasks 0.15)) = 2 \<and>
   length (result_completed_tasks (simulate_task_execution (SimpleValidator 1000) greedy_sv_tasks 0.2)) = 1"
  by (simp add: execute_task_def can_execute_task_def is_critical_energy_def
      get_available_energy_def RoverConfig_simps MissionSimulator_def greedy_tasks_costs Let_def
      simulate_task_execution_def SimpleValidator_def greedy_sv_tasks_def)


lemma defer_remaining_completed:
  "completed_tasks (defer_remaining s P) = completed_tasks s"
  using fold_defer_task [of "filter (unflagged s) P" s]
  by (simp add: defer_remaining_filter)

lemma execute_task_deferred:
  assumes "\<not> can_execute_task cfg s r"
  shows "\<exists>s1. execute_task cfg s r = Inr (False, s1) \<and>
           current_battery_level s1 = current_battery_level s \<and>
           completed_tasks s1 = completed_tasks s \<and>
           (\<forall>x. energy_cost (objects s1 x) = energy_cost (objects s x))"
  using assms by (simp add: execute_task_def)

lemma execute_task_completed:
  assumes "can_execute_task cfg s r" and "BATTERY_CAPACITY cfg \<noteq> 0"
  shows "\<exists>s1. execute_task cfg s r = Inr (True, s1) \<and>
           current_battery_level s1 =
             current_battery_level s - energy_cost (objects s r) / BATTERY_CAPACITY cfg \<and>
           completed_tasks s1 = completed_tasks s @ [r] \<and>
           (\<forall>x. energy_cost (objects s1 x) = energy_cost (objects s x))"
  using assms by (simp add: execute_task_def Let_def)

lemma mission_loop_total:
  assumes "BATTERY_CAPACITY cfg \<noteq> 0"
  shows "\<exists>f. mission_loop cfg P s rs = Inr f"
proof (induction rs arbitrary: s)
  case Nil
  then show ?case by simp
next
  case (Cons r rs)
  show ?case
  proof (cases "can_execute_task cfg s r")
    case True
    from execute_task_completed [OF True assms] obtain s1 where
      "execute_task cfg s r = Inr (True, s1)" by blast
    then show ?thesis using Cons.IH [of s1] by simp
  next
    case False
    from execute_task_deferred [OF False] obtain s1 where
      "execute_task cfg s r = Inr (False, s1)" by blast
    then show ?thesis using Cons.IH [of s1] by simp
  qed
qed

lemma mission_loop_completed_mono:
  assumes "mission_loop cfg P s rs = Inr f"
  shows "length (completed_tasks s) \<le> length (completed_tasks f)"
  using assms
proof (induction rs arbitrary: s)
  case Nil
  then show ?case by simp
next
  case (Cons r rs)
  show ?case
  proof (cases "is_critical_energy cfg (current_battery_level s)")
    case True
    then show ?thesis using Cons.prems by (auto simp: defer_remaining_completed)
  next
    case False
    with Cons.prems obtain ok s1 where
      first: "execute_task cfg s r = Inr (ok, s1)" and rest: "mission_loop cfg P s1 rs = Inr f"
      by (auto split: sum.splits)
    have "length (completed_tasks s) \<le> length (completed_tasks s1)"
      using first by (auto simp: execute_task_def Let_def split: if_splits)
    then show ?thesis using Cons.IH [OF rest] by simp
  qed
qed

lemma mission_loop_stuck:
  assumes "\<forall>x \<in> set rs. get_available_energy cfg (current_battery_level s) < energy_cost (objects s x)"
    and "mission_loop cfg P s rs = Inr f"
  shows "completed_tasks f = completed_tasks s"
  using assms
proof (induction rs arbitrary: s)
  case Nil
  then show ?case by simp
next
  case (Cons r rs)
  show ?case
  proof (cases "is_critical_energy cfg (current_battery_level s)")
    case True
    then show ?thesis using Cons.prems by (auto simp: defer_remaining_completed)
  next
    case False
    have "\<not> can_execute_task cfg s r"
      using Cons.prems(1) by (simp add: can_execute_task_def Let_def)
    from execute_task_deferred [OF this] obtain s1 where
      first: "execute_task cfg s r = Inr (False, s1)"
      and same: "current_battery_level s1 = current_battery_level s"
        "completed_tasks s1 = completed_tasks s"
        "\<forall>x. energy_cost (objects s1 x) = energy_cost (objects s x)"
      by blast
    have rest: "mission_loop cfg P s1 rs = Inr f"
      using Cons.prems(2) False first by simp
    have "\<forall>x \<in> set rs. get_available_energy cfg (current_battery_level s1) < energy_cost (objects s1 x)"
      using Cons.prems(1) same by simp
    from Cons.IH [OF this rest] show ?thesis using same by simp
  qed
qed

lemma get_available_energy_mono:
  assumes "0 \<le> BATTERY_CAPACITY cfg" and "b \<le> b'"
  shows "get_available_energy cfg b \<le> get_available_energy cfg b'"
proof -
  have "BATTERY_CAPACITY cfg * b \<le> BATTERY_CAPACITY cfg * b'"
    by (rule mult_left_mono [OF assms(2) assms(1)])
  then show ?thesis
    by (simp add: get_available_energy_def Let_def max_def)
qed

lemma mission_loop_monotone:
  assumes cap: "0 < BATTERY_CAPACITY cfg"
    and sorted: "sorted (map (\<lambda>r. energy_cost (objects s r)) rs)"
    and costs: "\<forall>x. energy_cost (objects s' x) = energy_cost (objects s x)"
    and level: "current_battery_level s \<le> current_battery_level s'"
    and lo: "mission_loop cfg P s rs = Inr f"
    and hi: "mission_loop cfg P' s' rs = Inr f'"
  shows "length (completed_tasks f) + length (completed_tasks s') \<le>
         length (completed_tasks f') + length (completed_tasks s)"
  using sorted costs level lo hi
proof (induction rs arbitrary: s s')
  case Nil
  then show ?case by simp
next
  case (Cons r rs)
  note hi_mono = mission_loop_completed_mono [OF Cons.prems(5)]
  show ?case
  proof (cases "is_critical_energy cfg (current_battery_level s)")
    case True
    then have "completed_tasks f = completed_tasks s"
      using Cons.prems(4) by (auto simp: defer_remaining_completed)
    then show ?thesis using hi_mono by simp
  next
    case False
    then have not_crit': "\<not> is_critical_energy cfg (current_battery_level s')"
      using Cons.prems(3) by (simp add: is_critical_energy_def)
    show ?thesis
    proof (cases "can_execute_task cfg s r")
      case True
      have avail: "get_available_energy cfg (current_battery_level s) \<le>
          get_available_energy cfg (current_battery_level s')"
        using cap Cons.prems(3) by (intro get_available_energy_mono) simp_all
      have can': "can_execute_task cfg s' r"
        using True not_crit' avail Cons.prems(2)
        by (simp add: can_execute_task_def Let_def split: if_splits)
      from cap have cap0: "BATTERY_CAPACITY cfg \<noteq> 0" by simp
      from execute_task_completed [OF True cap0] obtain s1 where
        one: "execute_task cfg s r = Inr (True, s1)"
        and s1: "current_battery_level s1 =
             current_battery_level s - energy_cost (objects s r) / BATTERY_CAPACITY cfg"
          "completed_tasks s1 = completed_tasks s @ [r]"
          "\<forall>x. energy_cost (objects s1 x) = energy_cost (objects s x)"
        by blast
      from execute_task_completed [OF can' cap0] obtain s1' where
        one': "execute_task cfg s' r = Inr (True, s1')"
        and s1': "current_battery_level s1' =
             current_battery_level s' - energy_cost (objects s' r) / BATTERY_CAPACITY cfg"
          "completed_tasks s1' = completed_tasks s' @ [r]"
          "\<forall>x. energy_cost (objects s1' x) = energy_cost (objects s' x)"
        by blast
      have lo1: "mission_loop cfg P s1 rs = Inr f"
        using Cons.prems(4) False one by simp
      have hi1: "mission_loop cfg P' s1' rs = Inr f'"
        using Cons.prems(5) not_crit' one' by simp
      have sorted1: "sorted (map (\<lambda>r. energy_cost (objects s1 r)) rs)"
        using Cons.prems(1) s1 by simp
      have costs1: "\<forall>x. energy_cost (objects s1' x) = energy_cost (objects s1 x)"
        using Cons.prems(2) s1 s1' by simp
      have level1: "current_battery_level s1 \<le> current_battery_level s1'"
        using Cons.prems(2,3) s1 s1' by simp
      from Cons.IH [OF sorted1 costs1 level1 lo1 hi1]
      show ?thesis using s1 s1' by simp
    next
      case cannot: False
      from execute_task_deferred [OF cannot] obtain s1 where
        one: "execute_task cfg s r = Inr (False, s1)"
        and s1: "current_battery_level s1 = current_battery_level s"
          "completed_tasks s1 = completed_tasks s"
          "\<forall>x. energy_cost (objects s1 x) = energy_cost (objects s x)"
        by blast
      have lo1: "mission_loop cfg P s1 rs = Inr f"
        using Cons.prems(4) False one by simp
      have short: "get_available_energy cfg (current_battery_level s) < energy_cost (objects s r)"
        using cannot False by (simp add: can_execute_task_def Let_def)
      have "\<forall>x \<in> set rs. energy_cost (objects s r) \<le> energy_cost (objects s x)"
        using Cons.prems(1) by simp
      then have "\<forall>x \<in> set rs. get_available_energy cfg (current_battery_level s1) <
          energy_cost (objects s1 x)"
        using short s1 by auto
      from mission_loop_stuck [OF this lo1]
      have "completed_tasks f = completed_tasks s" using s1 by simp
      then show ?thesis using hi_mono by simp
    qed
  qed
qed

lemma mission_loop_count_monotone:
  assumes cap: "0 < BATTERY_CAPACITY cfg"
    and sorted: "sorted (map (\<lambda>r. energy_cost (objects sim r)) refs)"
    and level: "b \<le> b'"
  shows "\<exists>f f'. mission_loop cfg refs (sim\<lparr>current_battery_level := b\<rparr>) refs = Inr f \<and>
           mission_loop cfg refs (sim\<lparr>current_battery_level := b'\<rparr>) refs = Inr f' \<and>
           length (completed_tasks f) \<le> length (completed_tasks f')"
proof -
  from cap have cap0: "BATTERY_CAPACITY cfg \<noteq> 0" by simp
  obtain f where lo: "mission_loop cfg refs (sim\<lparr>current_battery_level := b\<rparr>) refs = Inr f"
    using mission_loop_total [OF cap0] by blast
  obtain f' where hi: "mission_loop cfg refs (sim\<lparr>current_battery_level := b'\<rparr>) refs = Inr f'"
    using mission_loop_total [OF cap0] by blast
  have "length (completed_tasks f) + length (completed_tasks (sim\<lparr>current_battery_level := b'\<rparr>)) \<le>
        length (completed_tasks f') + length (completed_tasks (sim\<lparr>current_battery_level := b\<rparr>))"
    by (rule mission_loop_monotone [OF cap _ _ _ lo hi]) (use sorted level in simp_all)
  then show ?thesis using lo hi by simp
qed


lemma execution_loop_completed_mono:
  "execution_loop ts (u, c, e, r) = (u1, c1, e1, r1) \<Longrightarrow> length c \<le> length c1"
proof (induction ts arbitrary: u c e r)
  case Nil
  then show ?case by simp
next
  case (Cons t ts)
  show ?case
  proof (cases "energy t \<le> u")
    case True
    then have "execution_loop ts (u - energy t, c @ [t], e + energy t, r + reward' t) = (u1, c1, e1, r1)"
      using Cons.prems by simp
    from Cons.IH [OF this] show ?thesis by simp
  next
    case False
    then have "execution_loop ts (u, c, e, r) = (u1, c1, e1, r1)"
      using Cons.prems by simp
    from Cons.IH [OF this] show ?thesis .
  qed
qed

lemma execution_loop_stuck:
  "\<forall>x \<in> set ts. u < energy x \<Longrightarrow> execution_loop ts (u, c, e, r) = (u, c, e, r)"
  by (induction ts) simp_all

lemma execution_loop_monotone:
  assumes "sorted (map energy ts)" and "u \<le> u'"
    and "execution_loop ts (u, c, e, r) = (u1, c1, e1, r1)"
    and "execution_loop ts (u', c', e', r') = (u1', c1', e1', r1')"
  shows "length c1 + length c' \<le> length c1' + length c"
  using assms
proof (induction ts arbitrary: u u' c c' e e' r r')
  case Nil
  then show ?case by simp
next
  case (Cons t ts)
  note hi_mono = execution_loop_completed_mono [OF Cons.prems(4)]
  show ?case
  proof (cases "energy t \<le> u")
    case True
    then have fits': "energy t \<le> u'" using Cons.prems(2) by simp
    have lo: "execution_loop ts (u - energy t, c @ [t], e + energy t, r + reward' t) = (u1, c1, e1, r1)"
      using Cons.prems(3) True by simp
    have hi: "execution_loop ts (u' - energy t, c' @ [t], e' + energy t, r' + reward' t) =
        (u1', c1', e1', r1')"
      using Cons.prems(4) fits' by simp
    have "sorted (map energy ts)" using Cons.prems(1) by simp
    moreover have "u - energy t \<le> u' - energy t" using Cons.prems(2) by simp
    ultimately have "length c1 + length (c' @ [t]) \<le> length c1' + length (c @ [t])"
      using lo hi by (rule Cons.IH)
    then show ?thesis by simp
  next
    case False
    have "\<forall>x \<in> set (t # ts). u < energy x"
      using False Cons.prems(1) by auto
    from execution_loop_stuck [OF this, of c e r] have "c1 = c"
      using Cons.prems(3) by simp
    then show ?thesis using hi_mono by simp
  qed
qed

lemma usable_energy_at_mono:
  assumes "0 \<le> battery_capacity sv" and "reserve_ratio sv \<le> 1" and "lvl \<le> lvl'"
  shows "usable_energy_at sv lvl \<le> usable_energy_at sv lvl'"
proof -
  have "battery_capacity sv * lvl \<le> battery_capacity sv * lvl'"
    by (rule mult_left_mono [OF assms(3) assms(1)])
  then have "(battery_capacity sv * lvl - terrain_energy sv) * (1 - reserve_ratio sv) \<le>
      (battery_capacity sv * lvl' - terrain_energy sv) * (1 - reserve_ratio sv)"
    using assms(2) by (intro mult_right_mono) simp_all
  then show ?thesis
    by (simp add: usable_energy_at_def Let_def max_def algebra_simps)
qed

lemma simulate_task_execution_count_monotone:
  assumes cap: "0 \<le> battery_capacity sv" and rr: "reserve_ratio sv \<le> 1"
    and sorted: "sorted (map energy ts)" and level: "lvl \<le> lvl'"
  shows "length (result_completed_tasks (simulate_task_execution sv ts lvl)) \<le>
         length (result_completed_tasks (simulate_task_execution sv ts lvl'))"
proof -
  obtain u1 c1 e1 r1 where lo:
    "execution_loop ts (usable_energy_at sv lvl, [], terrain_energy sv, 0) = (u1, c1, e1, r1)"
    by (cases "execution_loop ts (usable_energy_at sv lvl, [], terrain_energy sv, 0)") auto
  obtain u1' c1' e1' r1' where hi:
    "execution_loop ts (usable_energy_at sv lvl', [], terrain_energy sv, 0) = (u1', c1', e1', r1')"
    by (cases "execution_loop ts (usable_energy_at sv lvl', [], terrain_energy sv, 0)") auto
  from execution_loop_monotone [OF sorted usable_energy_at_mono [OF cap rr level] lo hi]
  show ?thesis
    using lo hi by (simp add: simulate_task_execution_loop)
qed

text \<open>
  Claim C2, amended. For every task sequence that is in ascending order of energy cost
  (the order of the energy-greedy policy) and every two initial battery levels, the number
  of tasks the greedy execution marks completed at the lower level is at most the number
  at the higher level, in the mission simulator's loop (for a positive battery capacity)
  and in the harness (for a non-negative capacity and a reserve ratio of at most 1).
\<close>

theorem completed_count_monotone_for_ascending_costs:
  "(0 < BATTERY_CAPACITY cfg \<and> sorted (map (\<lambda>r. energy_cost (objects sim r)) refs) \<and> b \<le> b' \<longrightarrow>
      (\<exists>f f'. mission_loop cfg refs (sim\<lparr>current_battery_level := b\<rparr>) refs = Inr f \<and>
           mission_loop cfg refs (sim\<lparr>current_battery_level := b'\<rparr>) refs = Inr f' \<and>
           length (completed_tasks f) \<le> length (completed_tasks f'))) \<and>
   (0 \<le> battery_capacity sv \<and> reserve_ratio sv \<le> 1 \<and> sorted (map energy ts) \<and> lvl \<le> lvl' \<longrightarrow>
      length (result_completed_tasks (simulate_task_execution sv ts lvl)) \<le>
      length (result_completed_tasks (simulate_task_execution sv ts lvl')))"
  using mission_loop_count_monotone [of cfg sim refs b b']
        simulate_task_execution_count_monotone [of sv ts lvl lvl']
  by blast

theorem completed_count_monotone_for_ascending_costs_witness:
  "(\<exists>f f'. mission_loop RoverConfig [0, 1, 2]
              ((MissionSimulator (store_of (rev greedy_tasks)))\<lparr>current_battery_level := 0.45\<rparr>)
              [0, 1, 2] = Inr f \<and>
            mission_loop RoverConfig [0, 1, 2]
              ((MissionSimulator (store_of (rev greedy_tasks)))\<lparr>current_battery_level := 0.5\<rparr>)
              [0, 1, 2] = Inr f' \<and>
            length (completed_tasks f) \<le> length (completed_tasks f')) \<and>
   length (result_completed_tasks
             (simulate_task_execution (SimpleValidator 1000) (rev greedy_sv_tasks) 0.15)) \<le>
   length (result_completed_tasks
             (simulate_task_execution (SimpleValidator 1000) (rev greedy_sv_tasks) 0.2))"
proof -
  have h1: "0 < BATTERY_CAPACITY RoverConfig \<and>
      sorted (map (\<lambda>r. energy_cost (objects (MissionSimulator (store_of (rev greedy_tasks))) r))
                [0, 1, 2]) \<and> (0.45::real) \<le> 0.5"
    by (simp add: RoverConfig_simps MissionSimulator_def greedy_tasks_def store_of_def
        cache_cost_def RoverConfig_def Task_def)
  have h2: "0 \<le> battery_capacity (SimpleValidator 1000) \<and>
      reserve_ratio (SimpleValidator 1000) \<le> 1 \<and>
      sorted (map energy (rev greedy_sv_tasks)) \<and> (0.15::real) \<le> 0.2"
    by (simp add: SimpleValidator_def greedy_sv_tasks_def)
  from completed_count_monotone_for_ascending_costs [of RoverConfig "MissionSimulator (store_of (rev greedy_tasks))" "[0, 1, 2]"
        "0.45" "0.5" "SimpleValidator 1000" "rev greedy_sv_tasks" "0.15" "0.2"] h1 h2
  show ?thesis by blast
qed


end
